theory Spec2Isabelle
  imports Main
begin

section \<open>Data model\<close>

text \<open>
  The application profile row of table \<open>users\<close> (\<^verbatim>\<open>src/lib/supabase.ts\<close>, type
  \<^verbatim>\<open>User\<close>). The row is obtained by the unchecked cast \<^verbatim>\<open>data as User\<close>, so the
  role is kept as the string the store delivers.
\<close>

record User =
  uid :: string
  email :: string
  fullName :: string
  role :: string
  isActive :: bool
  canWriteTestimonial :: bool
  createdAt :: string
  updatedAt :: string

text \<open>
  The identity provider's session. The code reads it only through \<^verbatim>\<open>session?.user\<close>
  and \<^verbatim>\<open>session.user.id\<close>; the optional chaining on \<^verbatim>\<open>user\<close> is kept as an option.
\<close>

record auth_user =
  au_id :: string
  au_email :: string

record SupabaseSession =
  session_user :: "auth_user option"
  access_token :: string
  refresh_token :: string

datatype log_level = LogInfo | LogWarn | LogError

type_synonym log_entry = "log_level \<times> string"

text \<open>The row that \<^verbatim>\<open>signup\<close> inserts into table \<open>users\<close>.\<close>

record profile_insert =
  ins_id :: string
  ins_email :: string
  ins_fullName :: string
  ins_role :: string
  ins_isActive :: bool
  ins_canWriteTestimonial :: bool

text \<open>Requests sent to the Profile Store: the single-row read and the insert.\<close>

datatype store_op = SelectUser string | InsertUser profile_insert

text \<open>
  The three React state cells of \<^verbatim>\<open>AuthProvider\<close> (\<^verbatim>\<open>user\<close>, \<^verbatim>\<open>session\<close>,
  \<^verbatim>\<open>isLoading\<close>), together with the two effects the code has besides them: the
  console (level and leading message literal of each call, in order) and the requests
  issued to the Profile Store (in order). Every \<^verbatim>\<open>setX(v)\<close> of the source passes a
  value, never an updater function, so a sequence of calls is the sequence of record
  updates.
\<close>

record world =
  user :: "User option"
  session :: "SupabaseSession option"
  isLoading :: bool
  console :: "log_entry list"
  store_ops :: "store_op list"

definition setUser :: "User option \<Rightarrow> world \<Rightarrow> world" where
  "setUser v w = w\<lparr>user := v\<rparr>"

definition setSession :: "SupabaseSession option \<Rightarrow> world \<Rightarrow> world" where
  "setSession v w = w\<lparr>session := v\<rparr>"

definition setIsLoading :: "bool \<Rightarrow> world \<Rightarrow> world" where
  "setIsLoading v w = w\<lparr>isLoading := v\<rparr>"

definition console_log :: "string \<Rightarrow> world \<Rightarrow> world" where
  "console_log m w = w\<lparr>console := console w @ [(LogInfo, m)]\<rparr>"

definition console_warn :: "string \<Rightarrow> world \<Rightarrow> world" where
  "console_warn m w = w\<lparr>console := console w @ [(LogWarn, m)]\<rparr>"

definition console_error :: "string \<Rightarrow> world \<Rightarrow> world" where
  "console_error m w = w\<lparr>console := console w @ [(LogError, m)]\<rparr>"

definition store_request :: "store_op \<Rightarrow> world \<Rightarrow> world" where
  "store_request q w = w\<lparr>store_ops := store_ops w @ [q]\<rparr>"

text \<open>
  The state at mount: \<^verbatim>\<open>useState(null)\<close>, \<^verbatim>\<open>useState(null)\<close>, \<^verbatim>\<open>useState(true)\<close>.
\<close>

definition initial_world :: world where
  "initial_world =
     \<lparr>user = None, session = None, isLoading = True, console = [], store_ops = []\<rparr>"

text \<open>
  The derived fields of the context value (\<^verbatim>\<open>AuthContext.tsx\<close>, lines 310 and 311):
  \<^verbatim>\<open>isAuthenticated: !!session\<close> and \<^verbatim>\<open>isAdmin: user?.role === 'admin'\<close>.
\<close>

definition isAuthenticated :: "world \<Rightarrow> bool" where
  "isAuthenticated w = (case session w of None \<Rightarrow> False | Some s \<Rightarrow> True)"

definition isAdmin :: "world \<Rightarrow> bool" where
  "isAdmin w = (case user w of None \<Rightarrow> False | Some u \<Rightarrow> role u = ''admin'')"

section \<open>Route guard\<close>

text \<open>\<^verbatim>\<open>requiredRole?: 'admin' | 'user'\<close>: an absent prop is \<open>None\<close>.\<close>

datatype required_role = RoleAdmin | RoleUser

datatype rendering =
    LoadingPlaceholder string
  | Navigate string
  | Children

text \<open>
  The conditions of the guard's \<^verbatim>\<open>if\<close> statements, in source order. The guard returns
  the conditions it evaluated before returning, next to what it renders, so that the
  order of evaluation is part of the result.
\<close>

datatype guard_check = LoadingCheck | AuthenticatedCheck | AdminRoleCheck | UserRoleCheck

text \<open>
  \<^verbatim>\<open>ProtectedRoute\<close> of \<^verbatim>\<open>unnamed/part_006\<close>. The \<^verbatim>\<open>console.log\<close> calls of its
  redirect branches are not modelled.
\<close>

definition ProtectedRoute :: "world \<Rightarrow> required_role option \<Rightarrow> guard_check list \<times> rendering" where
  "ProtectedRoute w requiredRole =
     (if isLoading w then
        ([LoadingCheck], LoadingPlaceholder ''Verifying authentication...'')
      else if \<not> isAuthenticated w then
        ([LoadingCheck, AuthenticatedCheck], Navigate ''/'')
      else if requiredRole = Some RoleAdmin \<and> \<not> isAdmin w then
        ([LoadingCheck, AuthenticatedCheck, AdminRoleCheck], Navigate ''/'')
      else if requiredRole = Some RoleUser \<and> \<not> isAuthenticated w then
        ([LoadingCheck, AuthenticatedCheck, AdminRoleCheck, UserRoleCheck], Navigate ''/'')
      else
        ([LoadingCheck, AuthenticatedCheck, AdminRoleCheck, UserRoleCheck], Children))"

text \<open>\<^verbatim>\<open>ProtectedRoute\<close> of \<^verbatim>\<open>unnamed/part_005\<close>: the same chain, a bare spinner.\<close>

definition ProtectedRoute_part_005 ::
  "world \<Rightarrow> required_role option \<Rightarrow> guard_check list \<times> rendering" where
  "ProtectedRoute_part_005 w requiredRole =
     (if isLoading w then
        ([LoadingCheck], LoadingPlaceholder [])
      else if \<not> isAuthenticated w then
        ([LoadingCheck, AuthenticatedCheck], Navigate ''/'')
      else if requiredRole = Some RoleAdmin \<and> \<not> isAdmin w then
        ([LoadingCheck, AuthenticatedCheck, AdminRoleCheck], Navigate ''/'')
      else if requiredRole = Some RoleUser \<and> \<not> isAuthenticated w then
        ([LoadingCheck, AuthenticatedCheck, AdminRoleCheck, UserRoleCheck], Navigate ''/'')
      else
        ([LoadingCheck, AuthenticatedCheck, AdminRoleCheck, UserRoleCheck], Children))"

text \<open>
  \<^verbatim>\<open>ProtectedRoute\<close> of \<^verbatim>\<open>unnamed/part_004\<close>: for a user route it tests \<^verbatim>\<open>!user\<close>
  and shows a second placeholder while the profile is absent.
\<close>

definition ProtectedRoute_part_004 ::
  "world \<Rightarrow> required_role option \<Rightarrow> guard_check list \<times> rendering" where
  "ProtectedRoute_part_004 w requiredRole =
     (if isLoading w then
        ([LoadingCheck], LoadingPlaceholder [])
      else if \<not> isAuthenticated w then
        ([LoadingCheck, AuthenticatedCheck], Navigate ''/'')
      else if requiredRole = Some RoleAdmin \<and> \<not> isAdmin w then
        ([LoadingCheck, AuthenticatedCheck, AdminRoleCheck], Navigate ''/'')
      else if requiredRole = Some RoleUser \<and> user w = None then
        ([LoadingCheck, AuthenticatedCheck, AdminRoleCheck, UserRoleCheck],
         LoadingPlaceholder ''Setting up your account...'')
      else
        ([LoadingCheck, AuthenticatedCheck, AdminRoleCheck, UserRoleCheck], Children))"

section \<open>Asynchronous calls, exceptions and results\<close>

text \<open>
  A thrown JavaScript value, by what the \<^verbatim>\<open>catch\<close> blocks observe of it:
  \<^item> \<open>ErrorObject name message\<close> is an instance of \<^verbatim>\<open>Error\<close>;
  \<^item> \<open>NonError s\<close> is any other value, with \<^verbatim>\<open>String(error)\<close> returning \<open>s\<close>;
  \<^item> \<open>Unprintable v\<close> is a value that is not an \<^verbatim>\<open>Error\<close> and whose conversion
    \<^verbatim>\<open>String(error)\<close> throws \<open>v\<close> (an object without \<^verbatim>\<open>toString\<close>, for which \<open>v\<close>
    is a \<^verbatim>\<open>TypeError\<close>, or one whose \<^verbatim>\<open>toString\<close> throws);
  \<^item> \<open>Circular v\<close> is a value that behaves as \<open>v\<close> does, except that
    \<^verbatim>\<open>JSON.stringify\<close> throws a \<^verbatim>\<open>TypeError\<close> on it (a circular reference).
\<close>

datatype js_exn =
    ErrorObject string string
  | NonError string
  | Unprintable js_exn
  | Circular js_exn

text \<open>How an awaited promise settles.\<close>

datatype 'a awaited = Fulfilled 'a | Rejected js_exn

text \<open>How a piece of code ends: it returns a value or it throws.\<close>

datatype 'a completion = Returned 'a | Raised js_exn

text \<open>\<^verbatim>\<open>error instanceof Error\<close>\<close>

fun instance_of_Error :: "js_exn \<Rightarrow> bool" where
  "instance_of_Error (ErrorObject n m) = True"
| "instance_of_Error (NonError s) = False"
| "instance_of_Error (Unprintable v) = False"
| "instance_of_Error (Circular v) = instance_of_Error v"

text \<open>
  The first statement of the \<^verbatim>\<open>catch\<close> blocks of \<^verbatim>\<open>fetchUserProfile\<close>, of the
  session-change handler and of \<^verbatim>\<open>login\<close>:
  \<^verbatim>\<open>error instanceof Error ? error.message : String(error)\<close>. It returns the message
  or throws what the conversion throws.
\<close>

fun error_message :: "js_exn \<Rightarrow> string completion" where
  "error_message (ErrorObject n m) = Returned m"
| "error_message (NonError s) = Returned s"
| "error_message (Unprintable v) = Raised v"
| "error_message (Circular v) = error_message v"

text \<open>\<^verbatim>\<open>JSON.stringify(error, null, 2)\<close>: it returns, or throws on a circular value.\<close>

fun JSON_stringify :: "js_exn \<Rightarrow> unit completion" where
  "JSON_stringify (ErrorObject n m) = Returned ()"
| "JSON_stringify (NonError s) = Returned ()"
| "JSON_stringify (Unprintable v) = Returned ()"
| "JSON_stringify (Circular v) =
     Raised (ErrorObject ''TypeError'' ''Converting circular structure to JSON'')"

text \<open>
  \<^verbatim>\<open>try { ... } catch (error) { ... }\<close>: the effects of the body up to the throw
  stay, and the handler runs on the world the body left.
\<close>

definition try_catch ::
  "'a completion \<times> world \<Rightarrow> (js_exn \<Rightarrow> world \<Rightarrow> 'a completion \<times> world) \<Rightarrow> 'a completion \<times> world" where
  "try_catch body handler =
     (case body of
        (Returned v, w) \<Rightarrow> (Returned v, w)
      | (Raised e, w) \<Rightarrow> handler e w)"

text \<open>
  The error object of a Profile Store response; only \<^verbatim>\<open>code\<close> decides a branch.
  An absent or empty code is what \<^verbatim>\<open>error?.code || 'UNKNOWN'\<close> replaces.
\<close>

record postgrest_error =
  code :: "string option"
  message :: string

text \<open>\<^verbatim>\<open>const { data, error } = await supabase.from('users')...single()\<close>\<close>

record select_response =
  data :: "User option"
  error :: "postgrest_error option"

text \<open>\<^verbatim>\<open>x || fallback\<close> on an optional string: absent and empty are falsy.\<close>

definition or_default :: "string option \<Rightarrow> string \<Rightarrow> string" where
  "or_default x fallback =
     (case x of None \<Rightarrow> fallback | Some s \<Rightarrow> if s = [] then fallback else s)"

text \<open>
  The part of both \<^verbatim>\<open>catch\<close> blocks of \<^verbatim>\<open>AuthContext.tsx\<close> that prints the stack:
  \<^verbatim>\<open>if (error instanceof Error) console.error(label, error.stack)\<close>.
\<close>

definition log_stack :: "string \<Rightarrow> js_exn \<Rightarrow> world \<Rightarrow> world" where
  "log_stack label e w = (if instance_of_Error e then console_error label w else w)"

section \<open>Session Reconciler: fetchUserProfile\<close>

text \<open>
  \<^verbatim>\<open>fetchUserProfile\<close> (\<^verbatim>\<open>AuthContext.tsx\<close>, lines 91 to 159) up to its
  \<^verbatim>\<open>await\<close>: the log line and the read request.
\<close>

definition fetchUserProfile_request :: "string \<Rightarrow> world \<Rightarrow> world" where
  "fetchUserProfile_request userId w =
     store_request (SelectUser userId) (console_log ''[Auth] Fetching profile for user:'' w)"

text \<open>The body of its \<^verbatim>\<open>try\<close> block from the point where the read settles.\<close>

definition fetchUserProfile_try :: "select_response awaited \<Rightarrow> world \<Rightarrow> unit completion \<times> world" where
  "fetchUserProfile_try settled w =
     (case settled of
        Rejected e \<Rightarrow> (Raised e, w)
      | Fulfilled r \<Rightarrow>
          (case error r of
             Some err \<Rightarrow>
               (let errorCode = or_default (code err) ''UNKNOWN'';
                    w1 = console_warn ''[Auth] Error fetching user profile:'' w
                in if errorCode = ''PGRST116'' then
                     (Returned (),
                      setUser None
                        (console_warn ''[Auth] User profile not found in database (PGRST116). User may not have completed setup.'' w1))
                   else if errorCode = ''42501'' then
                     (Returned (),
                      setUser None
                        (console_error ''[Auth] RLS Policy Denied (42501): Cannot fetch user profile. Check RLS policies on users table.'' w1))
                   else
                     (Returned (),
                      setUser None
                        (console_error ''[Auth] Unexpected error fetching profile. Code:'' w1)))
           | None \<Rightarrow>
               (case data r of
                  None \<Rightarrow>
                    (Returned (),
                     setUser None (console_warn ''[Auth] Profile fetch returned null data'' w))
                | Some row \<Rightarrow>
                    (Returned (),
                     setUser (Some row) (console_log ''[Auth] Profile fetched successfully:'' w)))))"

text \<open>
  Its \<^verbatim>\<open>catch\<close> block (lines 142 to 158). The message is computed first, at line
  144; when that throws, nothing is logged, \<^verbatim>\<open>setUser(null)\<close> at line 157 is not
  reached and the exception leaves the function.
\<close>

definition fetchUserProfile_catch :: "js_exn \<Rightarrow> world \<Rightarrow> unit completion \<times> world" where
  "fetchUserProfile_catch e w =
     (case error_message e of
        Raised v \<Rightarrow> (Raised v, w)
      | Returned errorMessage \<Rightarrow>
          (Returned (),
           setUser None
             (log_stack ''[Auth] Error stack:'' e
                (console_error ''[Auth] Exception while fetching user profile:'' w))))"

definition fetchUserProfile_resume :: "select_response awaited \<Rightarrow> world \<Rightarrow> unit completion \<times> world" where
  "fetchUserProfile_resume settled w =
     try_catch (fetchUserProfile_try settled w) fetchUserProfile_catch"

text \<open>The whole call, with nothing else running while the read is awaited.\<close>

definition fetchUserProfile ::
  "string \<Rightarrow> select_response awaited \<Rightarrow> world \<Rightarrow> unit completion \<times> world" where
  "fetchUserProfile userId settled w =
     fetchUserProfile_resume settled (fetchUserProfile_request userId w)"

text \<open>
  The superseded copy (\<^verbatim>\<open>unnamed/part_008\<close>, lines 86 to 151): the branch for any
  other error code rethrows the store's error object inside the \<^verbatim>\<open>try\<close>, and the
  function's own \<^verbatim>\<open>catch\<close> takes it. The error object comes from a parsed response:
  it converts to a string and \<^verbatim>\<open>JSON.stringify\<close> accepts it, as it accepts the
  object \<^verbatim>\<open>fullError\<close> of strings built in the \<^verbatim>\<open>try\<close>.
\<close>

definition fetchUserProfile_try_part_008 ::
  "select_response awaited \<Rightarrow> world \<Rightarrow> unit completion \<times> world" where
  "fetchUserProfile_try_part_008 settled w =
     (case settled of
        Rejected e \<Rightarrow> (Raised e, w)
      | Fulfilled r \<Rightarrow>
          (case error r of
             Some err \<Rightarrow>
               (let errorCode = or_default (code err) ''UNKNOWN''
                in if errorCode = ''PGRST116'' then
                     (Returned (),
                      setUser None
                        (console_warn ''[Auth] User profile not found in database. User may not be set up yet.'' w))
                   else if errorCode = ''42501'' then
                     (Returned (),
                      setUser None
                        (console_error ''[Auth] RLS Policy Denied: Cannot fetch user profile. Check RLS policies.'' w))
                   else
                     (Raised (NonError ''[object Object]''),
                      console_error ''[Auth] Unexpected error fetching profile:'' w))
           | None \<Rightarrow>
               (case data r of
                  None \<Rightarrow>
                    (Returned (),
                     setUser None (console_warn ''[Auth] Profile fetch returned null data'' w))
                | Some row \<Rightarrow>
                    (Returned (),
                     setUser (Some row) (console_log ''[Auth] Profile fetched successfully:'' w)))))"

text \<open>
  The \<^verbatim>\<open>catch\<close> block of that copy (lines 133 to 150): the message is computed first
  and may throw; six lines are logged; the argument \<^verbatim>\<open>JSON.stringify(error, null, 2)\<close>
  of the seventh is evaluated before the call and may throw; \<^verbatim>\<open>setUser(null)\<close> is last.
\<close>

definition fetchUserProfile_catch_part_008 :: "js_exn \<Rightarrow> world \<Rightarrow> unit completion \<times> world" where
  "fetchUserProfile_catch_part_008 e w =
     (case error_message e of
        Raised v \<Rightarrow> (Raised v, w)
      | Returned errorMessage \<Rightarrow>
          (let w6 =
                 console_error ''  Hint:''
                   (console_error ''  Details:''
                      (console_error ''  Status:''
                         (console_error ''  Code:''
                            (console_error ''  Message:''
                               (console_error ''[Auth] Error fetching user profile:'' w)))))
           in case JSON_stringify e of
                Raised v \<Rightarrow> (Raised v, w6)
              | Returned x \<Rightarrow> (Returned (), setUser None (console_error ''  Full Error:'' w6))))"

definition fetchUserProfile_part_008 ::
  "string \<Rightarrow> select_response awaited \<Rightarrow> world \<Rightarrow> unit completion \<times> world" where
  "fetchUserProfile_part_008 userId settled w =
     try_catch
       (fetchUserProfile_try_part_008 settled (fetchUserProfile_request userId w))
       fetchUserProfile_catch_part_008"

text \<open>
  The outcome taxonomy in the words of the specification (sections 4.1 and 6):
  a read yields a profile, NotFound, PermissionDenied, or a failure of any other kind.
  The two codes are the ones the store uses for "no row" and "row-level security denial".
\<close>

datatype fetch_outcome = Found User | NotFound | PermissionDenied | OtherFailure

definition spec_classify :: "select_response awaited \<Rightarrow> fetch_outcome" where
  "spec_classify settled =
     (case settled of
        Rejected e \<Rightarrow> OtherFailure
      | Fulfilled r \<Rightarrow>
          (case error r of
             Some err \<Rightarrow>
               (if code err = Some ''PGRST116'' then NotFound
                else if code err = Some ''42501'' then PermissionDenied
                else OtherFailure)
           | None \<Rightarrow> (case data r of Some row \<Rightarrow> Found row | None \<Rightarrow> OtherFailure)))"

text \<open>The profile the specification attaches to each outcome.\<close>

definition spec_profile :: "fetch_outcome \<Rightarrow> User option" where
  "spec_profile c = (case c of Found row \<Rightarrow> Some row | _ \<Rightarrow> None)"

text \<open>The console line by which the code marks each outcome.\<close>

definition outcome_marker :: "select_response awaited \<Rightarrow> log_entry" where
  "outcome_marker settled =
     (case settled of
        Rejected e \<Rightarrow>
          (LogError,
           if instance_of_Error e then ''[Auth] Error stack:''
           else ''[Auth] Exception while fetching user profile:'')
      | Fulfilled r \<Rightarrow>
          (case spec_classify settled of
             Found row \<Rightarrow> (LogInfo, ''[Auth] Profile fetched successfully:'')
           | NotFound \<Rightarrow>
               (LogWarn, ''[Auth] User profile not found in database (PGRST116). User may not have completed setup.'')
           | PermissionDenied \<Rightarrow>
               (LogError, ''[Auth] RLS Policy Denied (42501): Cannot fetch user profile. Check RLS policies on users table.'')
           | OtherFailure \<Rightarrow>
               (case error r of
                  Some err \<Rightarrow> (LogError, ''[Auth] Unexpected error fetching profile. Code:'')
                | None \<Rightarrow> (LogWarn, ''[Auth] Profile fetch returned null data''))))"

section \<open>Session Reconciler: the session-change handler and initializeAuth\<close>

text \<open>
  An \<^verbatim>\<open>async\<close> function runs until its next \<^verbatim>\<open>await\<close> on a pending promise or
  until it returns: \<open>Awaits\<close> or \<open>Settles v\<close>.
\<close>

datatype 'a async_step = Settles 'a | Awaits

text \<open>\<^verbatim>\<open>session?.user\<close>\<close>

definition session_user_of :: "SupabaseSession option \<Rightarrow> auth_user option" where
  "session_user_of s = (case s of None \<Rightarrow> None | Some x \<Rightarrow> session_user x)"

text \<open>
  The callback given to \<^verbatim>\<open>supabase.auth.onAuthStateChange\<close> (\<^verbatim>\<open>AuthContext.tsx\<close>,
  lines 47 to 84): its \<^verbatim>\<open>catch\<close> and \<^verbatim>\<open>finally\<close> blocks, the run from the call to
  the first \<^verbatim>\<open>await\<close>, and the run after \<^verbatim>\<open>await fetchUserProfile(...)\<close>. The
  \<^verbatim>\<open>catch\<close> block computes the message first (line 65); when that throws,
  \<^verbatim>\<open>setUser(null)\<close> at line 78 is not reached, the \<^verbatim>\<open>finally\<close> block still runs
  and the handler's promise rejects.
\<close>

definition onAuthStateChange_catch :: "js_exn \<Rightarrow> world \<Rightarrow> unit completion \<times> world" where
  "onAuthStateChange_catch e w =
     (case error_message e of
        Raised v \<Rightarrow> (Raised v, w)
      | Returned errorMessage \<Rightarrow>
          (Returned (),
           setUser None
             (log_stack ''[Auth] Stack trace:'' e
                (console_error ''[Auth] Error in onAuthStateChange handler:'' w))))"

definition onAuthStateChange_finally :: "world \<Rightarrow> world" where
  "onAuthStateChange_finally w =
     setIsLoading False (console_log ''[Auth] Setting isLoading to false'' w)"

definition onAuthStateChange_begin ::
  "string \<Rightarrow> SupabaseSession option \<Rightarrow> world \<Rightarrow> unit async_step \<times> world" where
  "onAuthStateChange_begin event sess w =
     (let w1 = setSession sess (console_log ''[Auth] Auth state changed:'' w)
      in case session_user_of sess of
           Some u \<Rightarrow>
             (Awaits,
              fetchUserProfile_request (au_id u)
                (console_log ''[Auth] Session exists, fetching profile for user:''
                   (setIsLoading True w1)))
         | None \<Rightarrow>
             (Settles (),
              onAuthStateChange_finally
                (setUser None (console_log ''[Auth] No session, clearing user'' w1))))"

definition onAuthStateChange_resume :: "unit completion \<Rightarrow> world \<Rightarrow> unit completion \<times> world" where
  "onAuthStateChange_resume c w =
     (case c of
        Returned x \<Rightarrow> (Returned (), onAuthStateChange_finally w)
      | Raised e \<Rightarrow>
          (case onAuthStateChange_catch e w of
             (c1, w1) \<Rightarrow> (c1, onAuthStateChange_finally w1)))"

text \<open>One invocation run to its end with nothing else in between.\<close>

definition onAuthStateChange ::
  "string \<Rightarrow> SupabaseSession option \<Rightarrow> select_response awaited \<Rightarrow> world
     \<Rightarrow> unit completion \<times> world" where
  "onAuthStateChange event sess settled w =
     (case onAuthStateChange_begin event sess w of
        (Settles x, w1) \<Rightarrow> (Returned (), w1)
      | (Awaits, w1) \<Rightarrow>
          (case fetchUserProfile_resume settled w1 of
             (c, w2) \<Rightarrow> onAuthStateChange_resume c w2))"

text \<open>
  \<^verbatim>\<open>initializeAuth\<close> (lines 28 to 44). It awaits \<^verbatim>\<open>getSession()\<close> first; the value
  awaited is \<^verbatim>\<open>data.session\<close>.
\<close>

definition initializeAuth_resume :: "unit completion \<Rightarrow> world \<Rightarrow> world" where
  "initializeAuth_resume c w =
     (case c of
        Returned x \<Rightarrow> setIsLoading False w
      | Raised e \<Rightarrow> setIsLoading False (console_error ''Error initializing auth:'' w))"

definition initializeAuth_after_getSession ::
  "SupabaseSession option awaited \<Rightarrow> world \<Rightarrow> unit async_step \<times> world" where
  "initializeAuth_after_getSession settled w =
     (case settled of
        Rejected e \<Rightarrow> (Settles (), initializeAuth_resume (Raised e) w)
      | Fulfilled sess \<Rightarrow>
          (let w1 = setSession sess w
           in case session_user_of sess of
                Some u \<Rightarrow> (Awaits, fetchUserProfile_request (au_id u) w1)
              | None \<Rightarrow> (Settles (), initializeAuth_resume (Returned ()) w1)))"

definition initializeAuth ::
  "SupabaseSession option awaited \<Rightarrow> select_response awaited \<Rightarrow> world \<Rightarrow> world" where
  "initializeAuth got settled w =
     (case initializeAuth_after_getSession got w of
        (Settles x, w1) \<Rightarrow> w1
      | (Awaits, w1) \<Rightarrow>
          (case fetchUserProfile_resume settled w1 of
             (c, w2) \<Rightarrow> initializeAuth_resume c w2))"

section \<open>Session Reconciler: login, signup, logout, refreshUser\<close>

text \<open>The identity provider's error object; \<^verbatim>\<open>{ error: string | null }\<close> as an option.\<close>

record auth_error =
  ae_message :: string

type_synonym error_result = "string option"

record signin_response =
  si_session :: "SupabaseSession option"
  si_error :: "auth_error option"

definition login_begin :: "string \<Rightarrow> world \<Rightarrow> world" where
  "login_begin email_arg w = console_log ''[Auth] Login attempt for:'' w"

definition login_try :: "signin_response awaited \<Rightarrow> world \<Rightarrow> error_result completion \<times> world" where
  "login_try settled w =
     (case settled of
        Rejected e \<Rightarrow> (Raised e, w)
      | Fulfilled r \<Rightarrow>
          (case si_error r of
             Some er \<Rightarrow>
               (Returned (Some (or_default (Some (ae_message er)) ''Unknown error'')),
                console_error ''[Auth] Login failed:'' w)
           | None \<Rightarrow>
               (case session_user_of (si_session r) of
                  None \<Rightarrow>
                    (Returned (Some ''Login succeeded but session was not created''),
                     console_error ''[Auth] Login succeeded but no session/user returned'' w)
                | Some u \<Rightarrow>
                    (Returned None,
                     console_log ''[Auth] Login successful, session created:'' w))))"

definition login_catch :: "js_exn \<Rightarrow> world \<Rightarrow> error_result completion \<times> world" where
  "login_catch e w =
     (case error_message e of
        Raised v \<Rightarrow> (Raised v, w)
      | Returned errorMessage \<Rightarrow>
          (Returned (Some ''An unexpected error occurred''),
           console_error ''[Auth] Unexpected error during login:'' w))"

definition login ::
  "string \<Rightarrow> string \<Rightarrow> signin_response awaited \<Rightarrow> world \<Rightarrow> error_result completion \<times> world" where
  "login email_arg password settled w =
     try_catch (login_try settled (login_begin email_arg w)) login_catch"

text \<open>
  \<^verbatim>\<open>signup\<close> (lines 197 to 225) awaits twice: the provider's \<^verbatim>\<open>signUp\<close>, then the
  insert of the profile row. Its \<^verbatim>\<open>catch\<close> returns a fixed message and logs nothing.
  The insert's response is its \<^verbatim>\<open>error\<close> field.
\<close>

record signup_response =
  su_user :: "auth_user option"
  su_error :: "auth_error option"

definition signup_after_signUp ::
  "string \<Rightarrow> string \<Rightarrow> signup_response awaited \<Rightarrow> world \<Rightarrow> error_result async_step \<times> world" where
  "signup_after_signUp email_arg fullName_arg settled w =
     (case settled of
        Rejected e \<Rightarrow> (Settles (Some ''An unexpected error occurred''), w)
      | Fulfilled r \<Rightarrow>
          (case su_error r of
             Some er \<Rightarrow> (Settles (Some (ae_message er)), w)
           | None \<Rightarrow>
               (case su_user r of
                  None \<Rightarrow> (Settles (Some ''Failed to create user''), w)
                | Some u \<Rightarrow>
                    (Awaits,
                     store_request
                       (InsertUser
                          \<lparr>ins_id = au_id u, ins_email = email_arg, ins_fullName = fullName_arg,
                           ins_role = ''user'', ins_isActive = True,
                           ins_canWriteTestimonial = False\<rparr>) w))))"

definition signup_after_insert ::
  "postgrest_error option awaited \<Rightarrow> world \<Rightarrow> error_result \<times> world" where
  "signup_after_insert settled w =
     (case settled of
        Rejected e \<Rightarrow> (Some ''An unexpected error occurred'', w)
      | Fulfilled None \<Rightarrow> (None, w)
      | Fulfilled (Some profileError) \<Rightarrow> (Some (message profileError), w))"

definition signup ::
  "string \<Rightarrow> string \<Rightarrow> string \<Rightarrow> signup_response awaited \<Rightarrow> postgrest_error option awaited
     \<Rightarrow> world \<Rightarrow> error_result \<times> world" where
  "signup email_arg password fullName_arg signedUp inserted w =
     (case signup_after_signUp email_arg fullName_arg signedUp w of
        (Settles r, w1) \<Rightarrow> (r, w1)
      | (Awaits, w1) \<Rightarrow> signup_after_insert inserted w1)"

text \<open>
  \<^verbatim>\<open>logout\<close> (lines 227 to 246). \<^verbatim>\<open>signOut()\<close> resolves to an object whose
  \<^verbatim>\<open>error\<close> the code never reads, or rejects.
\<close>

definition logout_begin :: "world \<Rightarrow> world" where
  "logout_begin w = console_log ''[Auth] Logging out'' w"

definition logout_try :: "auth_error option awaited \<Rightarrow> world \<Rightarrow> unit completion \<times> world" where
  "logout_try settled w =
     (case settled of
        Rejected e \<Rightarrow> (Raised e, w)
      | Fulfilled r \<Rightarrow>
          (Returned (),
           console_log ''[Auth] Logout successful''
             (setIsLoading False (setSession None (setUser None w)))))"

definition logout_catch :: "js_exn \<Rightarrow> world \<Rightarrow> unit completion \<times> world" where
  "logout_catch e w =
     (Returned (),
      setIsLoading False
        (setSession None (setUser None (console_error ''[Auth] Error logging out:'' w))))"

definition logout_resume :: "auth_error option awaited \<Rightarrow> world \<Rightarrow> unit completion \<times> world" where
  "logout_resume settled w = try_catch (logout_try settled w) logout_catch"

definition logout :: "auth_error option awaited \<Rightarrow> world \<Rightarrow> unit completion \<times> world" where
  "logout settled w = logout_resume settled (logout_begin w)"

text \<open>
  \<^verbatim>\<open>refreshUser\<close> (lines 300 to 304). The \<^verbatim>\<open>session\<close> it tests is not the live
  state cell: it is the constant of the render of \<^verbatim>\<open>AuthProvider\<close> that created this
  closure, so the function takes that captured value as an argument. A caller that
  obtained \<^verbatim>\<open>refreshUser\<close> in one render and calls it after an \<^verbatim>\<open>await\<close>
  (\<^verbatim>\<open>AdminSetup.tsx\<close>, lines 35 to 71) passes the session of that earlier render.
\<close>

definition refreshUser_begin :: "SupabaseSession option \<Rightarrow> world \<Rightarrow> unit async_step \<times> world" where
  "refreshUser_begin captured w =
     (case session_user_of captured of
        Some u \<Rightarrow> (Awaits, fetchUserProfile_request (au_id u) w)
      | None \<Rightarrow> (Settles (), w))"

definition refreshUser ::
  "SupabaseSession option \<Rightarrow> select_response awaited \<Rightarrow> world \<Rightarrow> unit completion \<times> world" where
  "refreshUser captured settled w =
     (case refreshUser_begin captured w of
        (Settles x, w1) \<Rightarrow> (Returned (), w1)
      | (Awaits, w1) \<Rightarrow> fetchUserProfile_resume settled w1)"

section \<open>Interleaved executions\<close>

text \<open>
  The runtime is single-threaded: an invocation runs without interruption between two
  of its suspension points, and invocations interleave only there. Every invocation of
  the handler and of \<^verbatim>\<open>initializeAuth\<close> is a task, named by its position in the list of
  tasks; a task records where its invocation is suspended.
\<close>

datatype task =
    InitAwaitSession
  | InitAwaitProfile
  | InitAwaitReturn "unit completion"
  | HandlerAwaitProfile
  | HandlerAwaitReturn "unit completion"
  | Finished

record reconciler =
  state :: world
  tasks :: "task list"

text \<open>
  What can happen next: the provider is mounted (\<^verbatim>\<open>initializeAuth()\<close> is called), a
  session-change event is delivered, the \<^verbatim>\<open>getSession\<close> call or the profile read of
  a task settles, or a task whose \<^verbatim>\<open>fetchUserProfile\<close> call has settled continues.
  When a read settles, the rest of \<^verbatim>\<open>fetchUserProfile\<close> runs; the caller's code after
  \<^verbatim>\<open>await fetchUserProfile(...)\<close> is a later step of its own, as the promise machinery
  schedules it. An action that names no task, or a task that is not at that point, is
  refused (\<open>None\<close>). A finished task does not record whether the handler's promise was
  fulfilled or rejected: nothing in the provider reads it.
\<close>

datatype action =
    Mount
  | SessionChanged string "SupabaseSession option"
  | GetSessionSettled nat "SupabaseSession option awaited"
  | ProfileSettled nat "select_response awaited"
  | Continue nat

definition task_at :: "reconciler \<Rightarrow> nat \<Rightarrow> task option" where
  "task_at \<sigma> i = (if i < length (tasks \<sigma>) then Some (tasks \<sigma> ! i) else None)"

definition after_step :: "'a async_step \<Rightarrow> task \<Rightarrow> task" where
  "after_step s suspended = (case s of Settles x \<Rightarrow> Finished | Awaits \<Rightarrow> suspended)"

fun step :: "reconciler \<Rightarrow> action \<Rightarrow> reconciler option" where
  "step \<sigma> Mount = Some (\<sigma>\<lparr>tasks := tasks \<sigma> @ [InitAwaitSession]\<rparr>)"
| "step \<sigma> (SessionChanged event sess) =
     (case onAuthStateChange_begin event sess (state \<sigma>) of
        (s, w) \<Rightarrow> Some \<lparr>state = w, tasks = tasks \<sigma> @ [after_step s HandlerAwaitProfile]\<rparr>)"
| "step \<sigma> (GetSessionSettled i got) =
     (case task_at \<sigma> i of
        Some InitAwaitSession \<Rightarrow>
          (case initializeAuth_after_getSession got (state \<sigma>) of
             (s, w) \<Rightarrow> Some \<lparr>state = w, tasks = (tasks \<sigma>)[i := after_step s InitAwaitProfile]\<rparr>)
      | _ \<Rightarrow> None)"
| "step \<sigma> (ProfileSettled i settled) =
     (case task_at \<sigma> i of
        Some HandlerAwaitProfile \<Rightarrow>
          (case fetchUserProfile_resume settled (state \<sigma>) of
             (c, w) \<Rightarrow> Some \<lparr>state = w, tasks = (tasks \<sigma>)[i := HandlerAwaitReturn c]\<rparr>)
      | Some InitAwaitProfile \<Rightarrow>
          (case fetchUserProfile_resume settled (state \<sigma>) of
             (c, w) \<Rightarrow> Some \<lparr>state = w, tasks = (tasks \<sigma>)[i := InitAwaitReturn c]\<rparr>)
      | _ \<Rightarrow> None)"
| "step \<sigma> (Continue i) =
     (case task_at \<sigma> i of
        Some (HandlerAwaitReturn c) \<Rightarrow>
          Some \<lparr>state = snd (onAuthStateChange_resume c (state \<sigma>)),
                tasks = (tasks \<sigma>)[i := Finished]\<rparr>
      | Some (InitAwaitReturn c) \<Rightarrow>
          Some \<lparr>state = initializeAuth_resume c (state \<sigma>), tasks = (tasks \<sigma>)[i := Finished]\<rparr>
      | _ \<Rightarrow> None)"

fun run :: "reconciler \<Rightarrow> action list \<Rightarrow> reconciler option" where
  "run \<sigma> [] = Some \<sigma>"
| "run \<sigma> (a # as) = (case step \<sigma> a of None \<Rightarrow> None | Some \<sigma>' \<Rightarrow> run \<sigma>' as)"

text \<open>The number of invocations that have run to their end.\<close>

definition finished_count :: "reconciler \<Rightarrow> nat" where
  "finished_count \<sigma> = length (filter (\<lambda>t. t = Finished) (tasks \<sigma>))"

definition all_finished :: "reconciler \<Rightarrow> bool" where
  "all_finished \<sigma> = list_all (\<lambda>t. t = Finished) (tasks \<sigma>)"

text \<open>
  The actions that only let suspended invocations go on: no new event is delivered and
  no \<^verbatim>\<open>getSession\<close> call settles.
\<close>

definition is_resumption :: "action \<Rightarrow> bool" where
  "is_resumption a = (case a of ProfileSettled i r \<Rightarrow> True | Continue i \<Rightarrow> True | _ \<Rightarrow> False)"

definition only_resumptions :: "action list \<Rightarrow> bool" where
  "only_resumptions acts = list_all is_resumption acts"

text \<open>The response of the profile read that settles last in a list of actions.\<close>

fun last_settled :: "action list \<Rightarrow> select_response awaited option" where
  "last_settled [] = None"
| "last_settled (a # as) =
     (case last_settled as of
        Some r \<Rightarrow> Some r
      | None \<Rightarrow> (case a of ProfileSettled i r \<Rightarrow> Some r | _ \<Rightarrow> None))"

text \<open>
  A thrown value whose message the \<^verbatim>\<open>catch\<close> blocks can compute, an awaited call
  that fulfils or rejects with such a value, and a list of actions in which every
  profile read does.
\<close>

definition convertible :: "js_exn \<Rightarrow> bool" where
  "convertible e = (case error_message e of Returned m \<Rightarrow> True | Raised v \<Rightarrow> False)"

definition settles_convertibly :: "'a awaited \<Rightarrow> bool" where
  "settles_convertibly settled =
     (case settled of Fulfilled r \<Rightarrow> True | Rejected e \<Rightarrow> convertible e)"

definition convertible_reads :: "action list \<Rightarrow> bool" where
  "convertible_reads acts =
     list_all (\<lambda>a. case a of ProfileSettled i r \<Rightarrow> settles_convertibly r | _ \<Rightarrow> True) acts"

text \<open>
  No task waits with a thrown \<^verbatim>\<open>fetchUserProfile\<close>: the invariant of the task list
  that holds as long as every read settles convertibly, because \<^verbatim>\<open>fetchUserProfile\<close>
  then catches everything.
\<close>

definition returned_task :: "task \<Rightarrow> bool" where
  "returned_task t =
     (case t of
        HandlerAwaitReturn (Raised e) \<Rightarrow> False
      | InitAwaitReturn (Raised e) \<Rightarrow> False
      | _ \<Rightarrow> True)"

text \<open>
  How the continuation of \<^verbatim>\<open>fetchUserProfile\<close> ends, and the world that it leaves.
\<close>

definition fetch_completion :: "select_response awaited \<Rightarrow> unit completion" where
  "fetch_completion settled =
     (case settled of
        Fulfilled r \<Rightarrow> Returned ()
      | Rejected e \<Rightarrow> (case error_message e of Raised v \<Rightarrow> Raised v | Returned m \<Rightarrow> Returned ()))"

definition fetched :: "select_response awaited \<Rightarrow> world \<Rightarrow> world" where
  "fetched settled w = snd (fetchUserProfile_resume settled w)"

section \<open>Concrete inputs\<close>

definition admin_row :: User where
  "admin_row =
     \<lparr>uid = ''u1'', email = ''a@x.com'', fullName = ''Ann'', role = ''admin'',
      isActive = True, canWriteTestimonial = False,
      createdAt = ''2025-01-01'', updatedAt = ''2025-01-01''\<rparr>"

definition member_row :: User where
  "member_row =
     \<lparr>uid = ''u2'', email = ''b@x.com'', fullName = ''Bob'', role = ''user'',
      isActive = True, canWriteTestimonial = False,
      createdAt = ''2025-01-02'', updatedAt = ''2025-01-02''\<rparr>"

definition session_u1 :: SupabaseSession where
  "session_u1 =
     \<lparr>session_user = Some \<lparr>au_id = ''u1'', au_email = ''a@x.com''\<rparr>,
      access_token = ''at1'', refresh_token = ''rt1''\<rparr>"

definition session_u2 :: SupabaseSession where
  "session_u2 =
     \<lparr>session_user = Some \<lparr>au_id = ''u2'', au_email = ''b@x.com''\<rparr>,
      access_token = ''at2'', refresh_token = ''rt2''\<rparr>"

definition found_u1 :: "select_response awaited" where
  "found_u1 = Fulfilled \<lparr>data = Some admin_row, error = None\<rparr>"

definition found_u2 :: "select_response awaited" where
  "found_u2 = Fulfilled \<lparr>data = Some member_row, error = None\<rparr>"

definition no_row :: "select_response awaited" where
  "no_row =
     Fulfilled \<lparr>data = None,
       error = Some \<lparr>code = Some ''PGRST116'', message = ''no rows returned''\<rparr>\<rparr>"


text \<open>The provider right after mount, before any invocation.\<close>

definition start :: reconciler where
  "start = \<lparr>state = initial_world, tasks = []\<rparr>"

text \<open>A state with a session and no profile, not loading; and the same signed out.\<close>

definition session_without_profile :: world where
  "session_without_profile =
     \<lparr>user = None, session = Some session_u1, isLoading = False,
      console = [], store_ops = []\<rparr>"

definition signed_out :: world where
  "signed_out =
     \<lparr>user = None, session = None, isLoading = False, console = [], store_ops = []\<rparr>"

text \<open>A signed-in state with a loaded profile, not loading.\<close>

definition signed_in_u1 :: world where
  "signed_in_u1 =
     \<lparr>user = Some admin_row, session = Some session_u1, isLoading = False,
      console = [], store_ops = []\<rparr>"

text \<open>
  An execution in which \<^verbatim>\<open>getSession\<close> rejects, one profile read rejects and another
  finds no row, and the two handlers end in the reverse order of their start.
\<close>

definition example_run :: "action list" where
  "example_run =
     [Mount,
      SessionChanged ''SIGNED_IN'' (Some session_u1),
      GetSessionSettled 0 (Rejected (NonError ''storage unavailable'')),
      SessionChanged ''TOKEN_REFRESHED'' (Some session_u1),
      ProfileSettled (Suc 0) (Rejected (ErrorObject ''TypeError'' ''Failed to fetch'')),
      ProfileSettled (Suc (Suc 0)) no_row,
      Continue (Suc (Suc 0)),
      Continue (Suc 0)]"

text \<open>
  A sign-in whose profile read is still pending when the sign-out event is handled, and
  then finds the row.
\<close>

definition stale_after_logout :: "action list" where
  "stale_after_logout =
     [SessionChanged ''SIGNED_IN'' (Some session_u1),
      SessionChanged ''SIGNED_OUT'' None,
      ProfileSettled 0 found_u1,
      Continue 0]"

text \<open>
  Two sign-ins in quick succession, for \<open>u1\<close> and then for \<open>u2\<close>; the read for
  \<open>u2\<close> settles first and the read for \<open>u1\<close> after it.
\<close>

definition stale_overwrite :: "action list" where
  "stale_overwrite =
     [SessionChanged ''SIGNED_IN'' (Some session_u1),
      SessionChanged ''SIGNED_IN'' (Some session_u2),
      ProfileSettled (Suc 0) found_u2,
      Continue (Suc 0),
      ProfileSettled 0 found_u1,
      Continue 0]"

text \<open>The same two sign-ins with the reads settling in the order of the events.\<close>

definition in_order :: "action list" where
  "in_order =
     [SessionChanged ''SIGNED_IN'' (Some session_u1),
      SessionChanged ''SIGNED_IN'' (Some session_u2),
      ProfileSettled 0 found_u1,
      ProfileSettled (Suc 0) found_u2,
      Continue 0,
      Continue (Suc 0)]"

text \<open>A successful \<^verbatim>\<open>signUp\<close> at the identity provider and a successful sign-in.\<close>

definition signed_up_u2 :: "signup_response awaited" where
  "signed_up_u2 =
     Fulfilled \<lparr>su_user = Some \<lparr>au_id = ''u2'', au_email = ''b@x.com''\<rparr>, su_error = None\<rparr>"

definition signed_in_response_u1 :: "signin_response awaited" where
  "signed_in_response_u1 = Fulfilled \<lparr>si_session = Some session_u1, si_error = None\<rparr>"

section \<open>Basic facts\<close>

lemmas world_ops =
  setUser_def setSession_def setIsLoading_def console_log_def console_warn_def
  console_error_def store_request_def log_stack_def

lemmas fetchUserProfile_defs =
  fetchUserProfile_resume_def fetchUserProfile_try_def fetchUserProfile_catch_def
  try_catch_def

lemma or_default_code [simp]:
  "c \<noteq> [] \<Longrightarrow> c \<noteq> ''UNKNOWN'' \<Longrightarrow> (or_default x ''UNKNOWN'' = c) = (x = Some c)"
  by (auto simp add: or_default_def split: option.splits)

lemma convertible_simps [simp]:
  "convertible (ErrorObject n m)"
  "convertible (NonError s)"
  "\<not> convertible (Unprintable v)"
  "convertible (Circular v) = convertible v"
  by (simp_all add: convertible_def)

lemma convertible_message: "convertible e \<Longrightarrow> \<exists>m. error_message e = Returned m"
  by (cases "error_message e") (simp_all add: convertible_def)

text \<open>
  The continuation of \<^verbatim>\<open>fetchUserProfile\<close> throws only out of its \<^verbatim>\<open>catch\<close> block,
  when the read rejected with a value that does not convert.
\<close>

lemma fetchUserProfile_resume_effect:
  "fetchUserProfile_resume settled w = (fetch_completion settled, fetched settled w)"
  unfolding fetched_def
proof (cases settled)
  case (Fulfilled r)
  then show "fetchUserProfile_resume settled w =
      (fetch_completion settled, snd (fetchUserProfile_resume settled w))"
    by (cases "error r"; cases "data r")
       (simp_all add: fetchUserProfile_defs fetch_completion_def Let_def)
next
  case (Rejected e)
  then show "fetchUserProfile_resume settled w =
      (fetch_completion settled, snd (fetchUserProfile_resume settled w))"
    by (cases "error_message e") (simp_all add: fetchUserProfile_defs fetch_completion_def)
qed

lemma fetch_completion_convertibly:
  "settles_convertibly settled \<Longrightarrow> fetch_completion settled = Returned ()"
  by (auto simp add: settles_convertibly_def fetch_completion_def
      dest: convertible_message split: awaited.splits)

lemma user_fetched:
  "user (fetched settled w) =
     (case fetch_completion settled of
        Returned x \<Rightarrow> spec_profile (spec_classify settled)
      | Raised v \<Rightarrow> user w)"
  unfolding fetched_def
proof (cases settled)
  case (Fulfilled r)
  then show "user (snd (fetchUserProfile_resume settled w)) =
      (case fetch_completion settled of
         Returned x \<Rightarrow> spec_profile (spec_classify settled)
       | Raised v \<Rightarrow> user w)"
    by (cases "error r"; cases "data r")
       (simp_all add: fetchUserProfile_defs world_ops spec_classify_def spec_profile_def
          fetch_completion_def Let_def)
next
  case (Rejected e)
  then show "user (snd (fetchUserProfile_resume settled w)) =
      (case fetch_completion settled of
         Returned x \<Rightarrow> spec_profile (spec_classify settled)
       | Raised v \<Rightarrow> user w)"
    by (cases "error_message e")
       (simp_all add: fetchUserProfile_defs world_ops spec_classify_def spec_profile_def
          fetch_completion_def)
qed

lemma user_fetched_convertibly:
  "settles_convertibly settled \<Longrightarrow>
     user (fetched settled w) = spec_profile (spec_classify settled)"
  by (simp add: user_fetched fetch_completion_convertibly)

lemma session_fetched: "session (fetched settled w) = session w"
  unfolding fetched_def
proof (cases settled)
  case (Fulfilled r)
  then show "session (snd (fetchUserProfile_resume settled w)) = session w"
    by (cases "error r"; cases "data r") (simp_all add: fetchUserProfile_defs world_ops Let_def)
next
  case (Rejected e)
  then show "session (snd (fetchUserProfile_resume settled w)) = session w"
    by (cases "error_message e") (simp_all add: fetchUserProfile_defs world_ops)
qed

lemma isLoading_fetched: "isLoading (fetched settled w) = isLoading w"
  unfolding fetched_def
proof (cases settled)
  case (Fulfilled r)
  then show "isLoading (snd (fetchUserProfile_resume settled w)) = isLoading w"
    by (cases "error r"; cases "data r") (simp_all add: fetchUserProfile_defs world_ops Let_def)
next
  case (Rejected e)
  then show "isLoading (snd (fetchUserProfile_resume settled w)) = isLoading w"
    by (cases "error_message e") (simp_all add: fetchUserProfile_defs world_ops)
qed

lemma store_ops_fetched: "store_ops (fetched settled w) = store_ops w"
  unfolding fetched_def
proof (cases settled)
  case (Fulfilled r)
  then show "store_ops (snd (fetchUserProfile_resume settled w)) = store_ops w"
    by (cases "error r"; cases "data r") (simp_all add: fetchUserProfile_defs world_ops Let_def)
next
  case (Rejected e)
  then show "store_ops (snd (fetchUserProfile_resume settled w)) = store_ops w"
    by (cases "error_message e") (simp_all add: fetchUserProfile_defs world_ops)
qed

lemmas fetched_fields = session_fetched isLoading_fetched store_ops_fetched

text \<open>What the two continuations of the handler and of \<^verbatim>\<open>initializeAuth\<close> leave.\<close>

lemma isLoading_onAuthStateChange_resume:
  "\<not> isLoading (snd (onAuthStateChange_resume c w))"
proof (cases c)
  case (Returned x)
  then show ?thesis
    by (simp add: onAuthStateChange_resume_def onAuthStateChange_finally_def world_ops)
next
  case (Raised e)
  then show ?thesis
    by (cases "error_message e")
       (simp_all add: onAuthStateChange_resume_def onAuthStateChange_finally_def
          onAuthStateChange_catch_def world_ops)
qed

lemma session_onAuthStateChange_resume:
  "session (snd (onAuthStateChange_resume c w)) = session w"
proof (cases c)
  case (Returned x)
  then show ?thesis
    by (simp add: onAuthStateChange_resume_def onAuthStateChange_finally_def world_ops)
next
  case (Raised e)
  then show ?thesis
    by (cases "error_message e")
       (simp_all add: onAuthStateChange_resume_def onAuthStateChange_finally_def
          onAuthStateChange_catch_def world_ops)
qed

lemma user_onAuthStateChange_resume:
  "user (snd (onAuthStateChange_resume (Returned x) w)) = user w"
  by (simp add: onAuthStateChange_resume_def onAuthStateChange_finally_def world_ops)

lemmas onAuthStateChange_resume_fields =
  isLoading_onAuthStateChange_resume session_onAuthStateChange_resume
  user_onAuthStateChange_resume

lemma initializeAuth_resume_fields:
  "\<not> isLoading (initializeAuth_resume c w)"
  "session (initializeAuth_resume c w) = session w"
  "user (initializeAuth_resume c w) = user w"
  by (simp_all add: initializeAuth_resume_def world_ops split: completion.splits)

lemma onAuthStateChange_begin_no_user:
  "session_user_of sess = None \<Longrightarrow>
     \<exists>w'. onAuthStateChange_begin event sess w = (Settles (), w') \<and>
          user w' = None \<and> session w' = sess \<and> \<not> isLoading w'"
  by (simp add: onAuthStateChange_begin_def onAuthStateChange_finally_def world_ops)

lemma onAuthStateChange_begin_user:
  "session_user_of sess = Some u \<Longrightarrow>
     \<exists>w'. onAuthStateChange_begin event sess w = (Awaits, w') \<and>
          user w' = user w \<and> session w' = sess \<and> isLoading w'"
  by (simp add: onAuthStateChange_begin_def fetchUserProfile_request_def world_ops)

lemma initializeAuth_after_getSession_cases:
  "(\<exists>w'. initializeAuth_after_getSession got w = (Settles (), w') \<and> \<not> isLoading w') \<or>
   (\<exists>w'. initializeAuth_after_getSession got w = (Awaits, w'))"
  by (cases got)
     (auto simp add: initializeAuth_after_getSession_def initializeAuth_resume_fields Let_def
        split: option.splits)

section \<open>Route guard\<close>

text \<open>
  Claim C4. Whatever the session, the profile and the required role are, a guard that
  sees \<^verbatim>\<open>isLoading\<close> true renders the loading placeholder, and the loading test is the
  only condition it has evaluated: no authentication or role check runs. This holds
  for the three copies of the guard.
\<close>

theorem guard_loading_placeholder:
  "isLoading w \<Longrightarrow>
     ProtectedRoute w requiredRole =
       ([LoadingCheck], LoadingPlaceholder ''Verifying authentication...'') \<and>
     ProtectedRoute_part_005 w requiredRole = ([LoadingCheck], LoadingPlaceholder []) \<and>
     ProtectedRoute_part_004 w requiredRole = ([LoadingCheck], LoadingPlaceholder [])"
  by (simp add: ProtectedRoute_def ProtectedRoute_part_005_def ProtectedRoute_part_004_def)

theorem guard_loading_placeholder_witness:
  "isLoading (signed_in_u1\<lparr>isLoading := True\<rparr>) \<and>
   ProtectedRoute (signed_in_u1\<lparr>isLoading := True\<rparr>) (Some RoleAdmin) =
     ([LoadingCheck], LoadingPlaceholder ''Verifying authentication...'') \<and>
   ProtectedRoute_part_005 (signed_in_u1\<lparr>isLoading := True\<rparr>) (Some RoleAdmin) =
     ([LoadingCheck], LoadingPlaceholder []) \<and>
   ProtectedRoute_part_004 (signed_in_u1\<lparr>isLoading := True\<rparr>) (Some RoleAdmin) =
     ([LoadingCheck], LoadingPlaceholder [])"
  using guard_loading_placeholder [of "signed_in_u1\<lparr>isLoading := True\<rparr>" "Some RoleAdmin"]
  by (simp add: signed_in_u1_def)

text \<open>
  With a session and no profile, not loading, the guard of \<^verbatim>\<open>part_006\<close> and the copy
  of \<^verbatim>\<open>part_005\<close> render the content of a user route, and all three copies redirect
  an admin route to the home page.
\<close>

lemma guard_session_without_profile:
  assumes "\<not> isLoading w" and "session w = Some s" and "user w = None"
  shows "snd (ProtectedRoute w (Some RoleUser)) = Children \<and>
         snd (ProtectedRoute w (Some RoleAdmin)) = Navigate ''/'' \<and>
         snd (ProtectedRoute_part_005 w (Some RoleUser)) = Children \<and>
         snd (ProtectedRoute_part_005 w (Some RoleAdmin)) = Navigate ''/'' \<and>
         snd (ProtectedRoute_part_004 w (Some RoleAdmin)) = Navigate ''/''"
  using assms
  by (simp add: ProtectedRoute_def ProtectedRoute_part_005_def ProtectedRoute_part_004_def
      isAuthenticated_def isAdmin_def)

text \<open>
  The copy of \<^verbatim>\<open>part_004\<close> differs in that state: its user route tests \<^verbatim>\<open>!user\<close>
  (lines 31 to 40) and shows a second placeholder instead of the content, for as long
  as the profile is null.
\<close>

lemma part_004_session_without_profile:
  assumes "\<not> isLoading w" and "session w = Some s" and "user w = None"
  shows "snd (ProtectedRoute_part_004 w (Some RoleUser)) =
           LoadingPlaceholder ''Setting up your account...''"
  using assms by (simp add: ProtectedRoute_part_004_def isAuthenticated_def isAdmin_def)

text \<open>
  Claim C5, on the three copies of the guard, in the state with isLoading false, the
  session of \<open>u1\<close> and no profile. The guard of \<^verbatim>\<open>part_006\<close> and the copy of
  \<^verbatim>\<open>part_005\<close> do what the claim says: the user route renders the protected content
  and the admin route redirects. The copy of \<^verbatim>\<open>part_004\<close> redirects the admin route
  too, but on the user route it withholds the content and renders the placeholder
  \<^verbatim>\<open>Setting up your account...\<close>.
\<close>

theorem part_004_withholds_user_route:
  "\<not> isLoading session_without_profile \<and>
   session session_without_profile = Some session_u1 \<and>
   user session_without_profile = None \<and>
   snd (ProtectedRoute_part_004 session_without_profile (Some RoleUser)) =
     LoadingPlaceholder ''Setting up your account...'' \<and>
   snd (ProtectedRoute session_without_profile (Some RoleUser)) = Children \<and>
   snd (ProtectedRoute_part_005 session_without_profile (Some RoleUser)) = Children \<and>
   snd (ProtectedRoute session_without_profile (Some RoleAdmin)) = Navigate ''/'' \<and>
   snd (ProtectedRoute_part_005 session_without_profile (Some RoleAdmin)) = Navigate ''/'' \<and>
   snd (ProtectedRoute_part_004 session_without_profile (Some RoleAdmin)) = Navigate ''/''"
  by (simp add: session_without_profile_def ProtectedRoute_def ProtectedRoute_part_005_def
      ProtectedRoute_part_004_def isAuthenticated_def isAdmin_def)

text \<open>
  Claim C6. Not loading, a session, a loaded profile: the guard of an admin route
  renders the content exactly when the profile's role is \<^verbatim>\<open>'admin'\<close> and redirects
  to the home page for every other role. The three copies agree on this.
\<close>

theorem guard_admin_route:
  assumes "\<not> isLoading w" and "session w = Some s" and "user w = Some u"
  shows "snd (ProtectedRoute w (Some RoleAdmin)) =
           (if role u = ''admin'' then Children else Navigate ''/'') \<and>
         snd (ProtectedRoute_part_005 w (Some RoleAdmin)) =
           (if role u = ''admin'' then Children else Navigate ''/'') \<and>
         snd (ProtectedRoute_part_004 w (Some RoleAdmin)) =
           (if role u = ''admin'' then Children else Navigate ''/'')"
  using assms
  by (simp add: ProtectedRoute_def ProtectedRoute_part_005_def ProtectedRoute_part_004_def
      isAuthenticated_def isAdmin_def)

theorem guard_admin_route_witness:
  "\<not> isLoading signed_in_u1 \<and> session signed_in_u1 = Some session_u1 \<and>
   user signed_in_u1 = Some admin_row \<and>
   snd (ProtectedRoute signed_in_u1 (Some RoleAdmin)) = Children \<and>
   user (signed_in_u1\<lparr>user := Some member_row\<rparr>) = Some member_row \<and>
   snd (ProtectedRoute (signed_in_u1\<lparr>user := Some member_row\<rparr>) (Some RoleAdmin)) =
     Navigate ''/''"
  using guard_admin_route [of signed_in_u1 session_u1 admin_row]
    guard_admin_route [of "signed_in_u1\<lparr>user := Some member_row\<rparr>" session_u1 member_row]
  by (simp add: signed_in_u1_def admin_row_def member_row_def)

section \<open>fetchUserProfile, logout, refreshUser\<close>

text \<open>
  For every response of the Profile Store, and for every rejection with a value whose
  message the \<^verbatim>\<open>catch\<close> block can compute (an \<^verbatim>\<open>Error\<close>, or a value that converts
  to a string), \<^verbatim>\<open>fetchUserProfile\<close> returns normally. The profile it leaves is the
  one the specification attaches to the outcome (the row for Found, null for NotFound,
  PermissionDenied and every other failure), the session and the loading flag are
  untouched, and the last console line is the marker of that outcome.
\<close>

lemma fetchUserProfile_classifies:
  assumes "settles_convertibly settled"
  shows "\<exists>w'. fetchUserProfile userId settled w = (Returned (), w') \<and>
           user w' = spec_profile (spec_classify settled) \<and>
           session w' = session w \<and> isLoading w' = isLoading w \<and>
           last (console w') = outcome_marker settled"
proof (cases settled)
  case (Fulfilled r)
  then show ?thesis
    by (cases "error r"; cases "data r")
       (simp_all add: fetchUserProfile_def fetchUserProfile_defs fetchUserProfile_request_def
          world_ops spec_classify_def spec_profile_def outcome_marker_def Let_def)
next
  case (Rejected e)
  with assms obtain m where "error_message e = Returned m"
    by (auto simp add: settles_convertibly_def dest: convertible_message)
  with Rejected show ?thesis
    by (simp add: fetchUserProfile_def fetchUserProfile_defs fetchUserProfile_request_def
          world_ops spec_classify_def spec_profile_def outcome_marker_def)
qed

text \<open>
  When the read rejects with a value whose conversion throws, the \<^verbatim>\<open>catch\<close> block
  throws at its first statement: the call rejects, and the profile is the one from
  before the call.
\<close>

lemma fetchUserProfile_rejects:
  assumes "error_message e = Raised v"
  shows "fetchUserProfile userId (Rejected e) w = (Raised v, fetchUserProfile_request userId w)"
    and "user (snd (fetchUserProfile userId (Rejected e) w)) = user w"
  using assms
  by (simp_all add: fetchUserProfile_def fetchUserProfile_defs fetchUserProfile_request_def
      world_ops)

text \<open>
  The superseded copy returns normally on the same inputs, provided that
  \<^verbatim>\<open>JSON.stringify\<close> accepts the thrown value; on a circular value its \<^verbatim>\<open>catch\<close>
  block throws after six log lines, before \<^verbatim>\<open>setUser(null)\<close>.
\<close>

lemma fetchUserProfile_part_008_returns:
  assumes "settles_convertibly settled"
    and "\<And>e. settled = Rejected e \<Longrightarrow> JSON_stringify e = Returned ()"
  shows "\<exists>w'. fetchUserProfile_part_008 userId settled w = (Returned (), w') \<and>
           user w' = spec_profile (spec_classify settled) \<and>
           session w' = session w \<and> isLoading w' = isLoading w"
proof (cases settled)
  case (Fulfilled r)
  then show ?thesis
    by (cases "error r"; cases "data r")
       (simp_all add: fetchUserProfile_part_008_def fetchUserProfile_try_part_008_def
          fetchUserProfile_catch_part_008_def fetchUserProfile_request_def try_catch_def
          world_ops spec_classify_def spec_profile_def Let_def)
next
  case (Rejected e)
  with assms(1) obtain m where "error_message e = Returned m"
    by (auto simp add: settles_convertibly_def dest: convertible_message)
  with Rejected assms(2) [OF Rejected] show ?thesis
    by (simp add: fetchUserProfile_part_008_def fetchUserProfile_try_part_008_def
          fetchUserProfile_catch_part_008_def fetchUserProfile_request_def try_catch_def
          world_ops spec_classify_def spec_profile_def Let_def)
qed

lemma fetchUserProfile_part_008_rejects_circular:
  "fst (fetchUserProfile_part_008 userId (Rejected (Circular (ErrorObject n m))) w) =
     Raised (ErrorObject ''TypeError'' ''Converting circular structure to JSON'') \<and>
   user (snd (fetchUserProfile_part_008 userId (Rejected (Circular (ErrorObject n m))) w)) =
     user w"
  by (simp add: fetchUserProfile_part_008_def fetchUserProfile_try_part_008_def
      fetchUserProfile_catch_part_008_def fetchUserProfile_request_def try_catch_def
      world_ops Let_def)


text \<open>
  Claim C2. From every prior state, and whether the provider's \<^verbatim>\<open>signOut\<close> resolves
  (with or without an error object) or rejects, \<^verbatim>\<open>logout\<close> returns normally and
  leaves user null, session null and isLoading false.
\<close>

theorem logout_clears:
  "\<exists>w'. logout settled w = (Returned (), w') \<and>
         user w' = None \<and> session w' = None \<and> \<not> isLoading w'"
  by (cases settled)
     (simp_all add: logout_def logout_resume_def logout_try_def logout_catch_def
        logout_begin_def try_catch_def world_ops)

theorem logout_clears_witness:
  "fst (logout (Rejected (NonError ''network down'')) signed_in_u1) = Returned () \<and>
   user (snd (logout (Rejected (NonError ''network down'')) signed_in_u1)) = None \<and>
   session (snd (logout (Rejected (NonError ''network down'')) signed_in_u1)) = None \<and>
   \<not> isLoading (snd (logout (Rejected (NonError ''network down'')) signed_in_u1)) \<and>
   user (snd (logout (Fulfilled None) signed_in_u1)) = None \<and>
   session (snd (logout (Fulfilled None) signed_in_u1)) = None \<and>
   \<not> isLoading (snd (logout (Fulfilled None) signed_in_u1))"
  using logout_clears [of "Rejected (NonError ''network down'')" signed_in_u1]
    logout_clears [of "Fulfilled None" signed_in_u1]
  by auto

text \<open>
  The state is cleared in the continuation after \<^verbatim>\<open>await signOut()\<close>, so whatever ran
  while the call was pending does not matter.
\<close>

lemma logout_resume_clears:
  "\<exists>w'. logout_resume settled w = (Returned (), w') \<and>
         user w' = None \<and> session w' = None \<and> \<not> isLoading w'"
  by (cases settled)
     (simp_all add: logout_resume_def logout_try_def logout_catch_def try_catch_def world_ops)

text \<open>
  Claim C10, as the code has it. \<^verbatim>\<open>refreshUser\<close> tests the session that its closure
  captured at render. When that captured session is null, the call returns at once and
  the world is the one it started from: user, session and isLoading are unchanged, no
  request has been sent to the Profile Store and nothing has been logged. This is the
  case of a call made from the render in which the current session is null.
\<close>

theorem refreshUser_captured_null_session:
  "captured = None \<Longrightarrow> refreshUser captured settled w = (Returned (), w)"
  by (simp add: refreshUser_def refreshUser_begin_def session_user_of_def)

theorem refreshUser_captured_null_session_witness:
  "session signed_out = None \<and>
   refreshUser (session signed_out) found_u1 signed_out = (Returned (), signed_out) \<and>
   store_ops (snd (refreshUser (session signed_out) found_u1 signed_out)) = []"
  using refreshUser_captured_null_session [of "session signed_out" found_u1 signed_out]
  by (simp add: signed_out_def)

text \<open>
  The claim as written fails when the closure is stale: it was created while \<open>u1\<close> was
  signed in and is called after the live session has become null. The call sends the
  read for \<open>u1\<close> and sets the profile to the row found.
\<close>

theorem refreshUser_stale_closure_counterexample:
  "session signed_out = None \<and>
   fst (refreshUser (Some session_u1) found_u1 signed_out) = Returned () \<and>
   store_ops (snd (refreshUser (Some session_u1) found_u1 signed_out)) = [SelectUser ''u1''] \<and>
   user (snd (refreshUser (Some session_u1) found_u1 signed_out)) = Some admin_row \<and>
   session (snd (refreshUser (Some session_u1) found_u1 signed_out)) = None"
  by (simp add: signed_out_def session_u1_def found_u1_def refreshUser_def
      refreshUser_begin_def session_user_of_def fetchUserProfile_defs
      fetchUserProfile_request_def world_ops)

text \<open>With a captured session the call sends the read, whatever the live session is.\<close>

lemma refreshUser_with_session:
  "session_user_of captured = Some u \<Longrightarrow>
     store_ops (snd (refreshUser captured settled w)) = store_ops w @ [SelectUser (au_id u)]"
  by (simp add: refreshUser_def refreshUser_begin_def fetchUserProfile_resume_effect
      fetched_fields fetchUserProfile_request_def world_ops)

text \<open>
  \<^verbatim>\<open>refreshUser\<close> passes on what \<^verbatim>\<open>fetchUserProfile\<close> does: it returns normally
  whenever the read settles convertibly.
\<close>

lemma refreshUser_returns:
  "settles_convertibly settled \<Longrightarrow> fst (refreshUser captured settled w) = Returned ()"
  by (simp add: refreshUser_def refreshUser_begin_def fetchUserProfile_resume_effect
      fetch_completion_convertibly split: option.splits)

section \<open>The loading flag\<close>

lemma filter_length_update:
  "i < length xs \<Longrightarrow>
     length (filter P (xs[i := t])) + (if P (xs ! i) then 1 else 0) =
     length (filter P xs) + (if P t then 1 else 0)"
proof (induction xs arbitrary: i)
  case Nil
  then show ?case by simp
next
  case (Cons x xs)
  then show ?case by (cases i) auto
qed

lemma finished_count_update:
  assumes "task_at \<sigma> i = Some t" and "t \<noteq> Finished" and "t' \<noteq> Finished"
  shows "finished_count \<lparr>state = w, tasks = (tasks \<sigma>)[i := t']\<rparr> = finished_count \<sigma>"
proof -
  from assms(1) have i: "i < length (tasks \<sigma>)" and t: "tasks \<sigma> ! i = t"
    by (auto simp add: task_at_def split: if_splits)
  from filter_length_update [OF i, of "\<lambda>t. t = Finished" t'] t assms(2,3)
  show ?thesis by (simp add: finished_count_def)
qed

text \<open>A step that brings an invocation to its end leaves the flag false.\<close>

lemma step_finishes:
  assumes "step \<sigma> a = Some \<sigma>'" and "finished_count \<sigma> < finished_count \<sigma>'"
  shows "\<not> isLoading (state \<sigma>')"
proof (cases a)
  case Mount
  with assms show ?thesis by (auto simp add: finished_count_def)
next
  case (SessionChanged event sess)
  show ?thesis
  proof (cases "session_user_of sess")
    case None
    from onAuthStateChange_begin_no_user [OF None, of event "state \<sigma>"] assms(1) SessionChanged
    show ?thesis by auto
  next
    case (Some u)
    from onAuthStateChange_begin_user [OF Some, of event "state \<sigma>"] assms SessionChanged
    show ?thesis by (auto simp add: finished_count_def after_step_def)
  qed
next
  case (GetSessionSettled i got)
  with assms(1) have t: "task_at \<sigma> i = Some InitAwaitSession"
    by (auto split: option.splits task.splits)
  from initializeAuth_after_getSession_cases [of got "state \<sigma>"]
  show ?thesis
  proof
    assume "\<exists>w'. initializeAuth_after_getSession got (state \<sigma>) = (Settles (), w') \<and> \<not> isLoading w'"
    with assms(1) GetSessionSettled t show ?thesis by auto
  next
    assume "\<exists>w'. initializeAuth_after_getSession got (state \<sigma>) = (Awaits, w')"
    then obtain w' where "initializeAuth_after_getSession got (state \<sigma>) = (Awaits, w')" ..
    with assms(1) GetSessionSettled t
    have "\<sigma>' = \<lparr>state = w', tasks = (tasks \<sigma>)[i := InitAwaitProfile]\<rparr>"
      by (simp add: after_step_def)
    with finished_count_update [OF t, of InitAwaitProfile w'] assms(2)
    show ?thesis by simp
  qed
next
  case (ProfileSettled i settled)
  from assms(1) ProfileSettled
  consider "task_at \<sigma> i = Some HandlerAwaitProfile" | "task_at \<sigma> i = Some InitAwaitProfile"
    by (auto split: option.splits task.splits)
  then show ?thesis
  proof cases
    case 1
    with assms(1) ProfileSettled
    have "\<sigma>' = \<lparr>state = fetched settled (state \<sigma>),
                tasks = (tasks \<sigma>)[i := HandlerAwaitReturn (fetch_completion settled)]\<rparr>"
      by (simp add: fetchUserProfile_resume_effect)
    with finished_count_update [OF 1, of "HandlerAwaitReturn (fetch_completion settled)"] assms(2)
    show ?thesis by simp
  next
    case 2
    with assms(1) ProfileSettled
    have "\<sigma>' = \<lparr>state = fetched settled (state \<sigma>),
                tasks = (tasks \<sigma>)[i := InitAwaitReturn (fetch_completion settled)]\<rparr>"
      by (simp add: fetchUserProfile_resume_effect)
    with finished_count_update [OF 2, of "InitAwaitReturn (fetch_completion settled)"] assms(2)
    show ?thesis by simp
  qed
next
  case (Continue i)
  with assms(1) show ?thesis
    by (auto simp add: onAuthStateChange_resume_fields initializeAuth_resume_fields
        split: option.splits task.splits)
qed

text \<open>A step after which nothing is pending leaves the flag false.\<close>

lemma step_all_finished:
  assumes "step \<sigma> a = Some \<sigma>'" and "all_finished \<sigma>'"
  shows "\<not> isLoading (state \<sigma>')"
proof (cases a)
  case Mount
  with assms show ?thesis by (auto simp add: all_finished_def)
next
  case (SessionChanged event sess)
  show ?thesis
  proof (cases "session_user_of sess")
    case None
    from onAuthStateChange_begin_no_user [OF None, of event "state \<sigma>"] assms(1) SessionChanged
    show ?thesis by auto
  next
    case (Some u)
    from onAuthStateChange_begin_user [OF Some, of event "state \<sigma>"] assms SessionChanged
    show ?thesis by (auto simp add: all_finished_def after_step_def)
  qed
next
  case (GetSessionSettled i got)
  with assms(1) have t: "task_at \<sigma> i = Some InitAwaitSession"
    by (auto split: option.splits task.splits)
  then have i: "i < length (tasks \<sigma>)"
    by (simp add: task_at_def split: if_splits)
  from initializeAuth_after_getSession_cases [of got "state \<sigma>"]
  show ?thesis
  proof
    assume "\<exists>w'. initializeAuth_after_getSession got (state \<sigma>) = (Settles (), w') \<and> \<not> isLoading w'"
    with assms(1) GetSessionSettled t show ?thesis by auto
  next
    assume "\<exists>w'. initializeAuth_after_getSession got (state \<sigma>) = (Awaits, w')"
    then obtain w' where "initializeAuth_after_getSession got (state \<sigma>) = (Awaits, w')" ..
    with assms(1) GetSessionSettled t
    have "tasks \<sigma>' = (tasks \<sigma>)[i := InitAwaitProfile]"
      by (auto simp add: after_step_def)
    with i have "InitAwaitProfile \<in> set (tasks \<sigma>')"
      by (simp add: set_update_memI)
    with assms(2) show ?thesis by (auto simp add: all_finished_def list_all_iff)
  qed
next
  case (ProfileSettled i settled)
  from assms(1) ProfileSettled
  have "i < length (tasks \<sigma>) \<and>
        (tasks \<sigma>' = (tasks \<sigma>)[i := HandlerAwaitReturn (fetch_completion settled)] \<or>
         tasks \<sigma>' = (tasks \<sigma>)[i := InitAwaitReturn (fetch_completion settled)])"
    by (auto simp add: fetchUserProfile_resume_effect task_at_def
        split: option.splits task.splits if_splits)
  then have "HandlerAwaitReturn (fetch_completion settled) \<in> set (tasks \<sigma>') \<or>
             InitAwaitReturn (fetch_completion settled) \<in> set (tasks \<sigma>')"
    by (auto simp add: set_update_memI)
  with assms(2) show ?thesis by (auto simp add: all_finished_def list_all_iff)
next
  case (Continue i)
  with assms(1) show ?thesis
    by (auto simp add: onAuthStateChange_resume_fields initializeAuth_resume_fields
        split: option.splits task.splits)
qed

lemma run_snoc:
  "run \<sigma> (acts @ [a]) = (case run \<sigma> acts of None \<Rightarrow> None | Some \<sigma>1 \<Rightarrow> step \<sigma>1 a)"
  by (induction acts arbitrary: \<sigma>) (simp_all split: option.splits)

lemma run_append:
  "run \<sigma> (acts @ rest) = (case run \<sigma> acts of None \<Rightarrow> None | Some \<sigma>1 \<Rightarrow> run \<sigma>1 rest)"
  by (induction acts arbitrary: \<sigma>) (simp_all split: option.splits)

lemma run_all_finished:
  assumes "run \<sigma> acts = Some \<sigma>'" and "acts \<noteq> []" and "all_finished \<sigma>'"
  shows "\<not> isLoading (state \<sigma>')"
proof -
  from assms(2) obtain pre a where acts: "acts = pre @ [a]"
    by (cases acts rule: rev_cases) auto
  with assms(1) obtain \<sigma>1 where "step \<sigma>1 a = Some \<sigma>'"
    by (auto simp add: run_snoc split: option.splits)
  from this assms(3) show ?thesis by (rule step_all_finished)
qed

lemma onAuthStateChange_not_loading:
  "\<not> isLoading (snd (onAuthStateChange event sess settled w))"
proof (cases "session_user_of sess")
  case None
  from onAuthStateChange_begin_no_user [OF None, of event w]
  show ?thesis by (auto simp add: onAuthStateChange_def)
next
  case (Some u)
  from onAuthStateChange_begin_user [OF Some, of event w]
  show ?thesis
    by (auto simp add: onAuthStateChange_def fetchUserProfile_resume_effect
        onAuthStateChange_resume_fields)
qed

lemma initializeAuth_not_loading:
  "\<not> isLoading (initializeAuth got settled w)"
  using initializeAuth_after_getSession_cases [of got w]
  by (auto simp add: initializeAuth_def fetchUserProfile_resume_effect
      initializeAuth_resume_fields)

text \<open>
  A suspended invocation is never blocked by the others: once its read settles, in
  whatever way, it can take its two remaining steps, and then it is finished with the
  flag false.
\<close>

lemma handler_task_completes:
  assumes "task_at \<sigma> i = Some HandlerAwaitProfile"
  shows "\<exists>\<sigma>1 \<sigma>2. step \<sigma> (ProfileSettled i settled) = Some \<sigma>1 \<and>
           step \<sigma>1 (Continue i) = Some \<sigma>2 \<and>
           task_at \<sigma>2 i = Some Finished \<and> \<not> isLoading (state \<sigma>2)"
  using assms
  by (auto simp add: task_at_def fetchUserProfile_resume_effect
      onAuthStateChange_resume_fields split: if_splits)

lemma init_task_completes:
  assumes "task_at \<sigma> i = Some InitAwaitProfile"
  shows "\<exists>\<sigma>1 \<sigma>2. step \<sigma> (ProfileSettled i settled) = Some \<sigma>1 \<and>
           step \<sigma>1 (Continue i) = Some \<sigma>2 \<and>
           task_at \<sigma>2 i = Some Finished \<and> \<not> isLoading (state \<sigma>2)"
  using assms
  by (auto simp add: task_at_def fetchUserProfile_resume_effect
      initializeAuth_resume_fields split: if_splits)

text \<open>
  While the read of a sign-in is pending the flag is true: the handler has set it and
  is suspended. The flag falls only when the read settles and the handler continues.
\<close>

lemma pending_read_is_loading:
  "session_user_of sess = Some u \<Longrightarrow>
     \<exists>\<tau>. step \<sigma> (SessionChanged event sess) = Some \<tau> \<and> isLoading (state \<tau>) \<and>
          tasks \<tau> = tasks \<sigma> @ [HandlerAwaitProfile]"
  by (simp add: onAuthStateChange_begin_def fetchUserProfile_request_def after_step_def
      world_ops)

text \<open>
  A handler whose read rejects with a value that neither \<^verbatim>\<open>catch\<close> block can convert
  ends with a rejected promise and the profile untouched; its \<^verbatim>\<open>finally\<close> block has
  still cleared the flag.
\<close>

lemma onAuthStateChange_rejects_not_loading:
  "session_user_of sess = Some u \<Longrightarrow>
     fst (onAuthStateChange event sess (Rejected (Unprintable (Unprintable v))) w) = Raised v \<and>
     user (snd (onAuthStateChange event sess (Rejected (Unprintable (Unprintable v))) w)) =
       user w \<and>
     \<not> isLoading (snd (onAuthStateChange event sess (Rejected (Unprintable (Unprintable v))) w))"
  by (simp add: onAuthStateChange_def onAuthStateChange_begin_def onAuthStateChange_resume_def
      onAuthStateChange_catch_def onAuthStateChange_finally_def fetchUserProfile_defs
      fetchUserProfile_request_def world_ops)

lemma example_run_result:
  "map_option tasks (run start example_run) = Some [Finished, Finished, Finished]"
  by (simp add: example_run_def start_def initial_world_def session_u1_def no_row_def
      task_at_def after_step_def onAuthStateChange_begin_def onAuthStateChange_resume_def
      onAuthStateChange_finally_def onAuthStateChange_catch_def
      initializeAuth_after_getSession_def initializeAuth_resume_def
      fetchUserProfile_defs fetchUserProfile_request_def session_user_of_def world_ops)

text \<open>
  Claim C1. (1) One invocation of the session-change handler, for any event, any
  session (null or not) and any way the profile read settles, ends with isLoading
  false, also when its promise rejects; (2) so does \<^verbatim>\<open>initializeAuth\<close>, for any outcome of \<^verbatim>\<open>getSession\<close> and of the
  read. (3) In interleaved executions, from any state, every step that brings an
  invocation to its end leaves isLoading false; (4) and after any non-empty sequence of
  actions that leaves no invocation pending, isLoading is false.
\<close>

theorem loading_false_after_completion:
  "\<not> isLoading (snd (onAuthStateChange event sess settled w)) \<and>
   \<not> isLoading (initializeAuth got settled w) \<and>
   (step \<sigma> a = Some \<tau> \<and> finished_count \<sigma> < finished_count \<tau>
      \<longrightarrow> \<not> isLoading (state \<tau>)) \<and>
   (run \<rho> acts = Some \<upsilon> \<and> acts \<noteq> [] \<and> all_finished \<upsilon>
      \<longrightarrow> \<not> isLoading (state \<upsilon>))"
  using onAuthStateChange_not_loading initializeAuth_not_loading step_finishes
    run_all_finished
  by blast

theorem loading_false_after_completion_witness:
  "map_option all_finished (run start example_run) = Some True \<and>
   map_option (isLoading \<circ> state) (run start example_run) = Some False \<and>
   \<not> isLoading (snd (onAuthStateChange ''SIGNED_OUT'' None found_u1 signed_in_u1)) \<and>
   \<not> isLoading (initializeAuth (Fulfilled (Some session_u1)) no_row initial_world)"
proof -
  from example_run_result obtain \<upsilon>
    where r: "run start example_run = Some \<upsilon>"
      and t: "tasks \<upsilon> = [Finished, Finished, Finished]"
    by auto
  from t have f: "all_finished \<upsilon>"
    by (simp add: all_finished_def)
  have ne: "example_run \<noteq> []"
    by (simp add: example_run_def)
  from loading_false_after_completion
    [where \<rho> = start and acts = example_run and \<upsilon> = \<upsilon>
       and event = "''SIGNED_OUT''" and sess = None and settled = found_u1
       and w = signed_in_u1] r ne f
  have "\<not> isLoading (state \<upsilon>)"
    and "\<not> isLoading (snd (onAuthStateChange ''SIGNED_OUT'' None found_u1 signed_in_u1))"
    by blast+
  moreover from loading_false_after_completion
    [where got = "Fulfilled (Some session_u1)" and settled = no_row and w = initial_world]
  have "\<not> isLoading (initializeAuth (Fulfilled (Some session_u1)) no_row initial_world)"
    by blast
  ultimately show ?thesis
    using r f by simp
qed

section \<open>Profile reads that settle late\<close>

lemmas eval_defs =
  start_def initial_world_def session_u1_def session_u2_def found_u1_def found_u2_def
  no_row_def task_at_def after_step_def onAuthStateChange_begin_def
  onAuthStateChange_resume_def onAuthStateChange_finally_def onAuthStateChange_catch_def
  initializeAuth_after_getSession_def initializeAuth_resume_def
  fetchUserProfile_defs fetchUserProfile_request_def session_user_of_def world_ops

lemma convertible_reads_Cons:
  "convertible_reads (a # acts) =
     ((case a of ProfileSettled i r \<Rightarrow> settles_convertibly r | _ \<Rightarrow> True) \<and>
      convertible_reads acts)"
  by (simp add: convertible_reads_def)

text \<open>What one resumption does to the three state cells and to the task invariant.\<close>

lemma step_resumption_session:
  assumes "step \<sigma> a = Some \<sigma>'" and "is_resumption a"
  shows "session (state \<sigma>') = session (state \<sigma>)"
  using assms
  by (cases a)
     (auto simp add: is_resumption_def fetchUserProfile_resume_effect fetched_fields
        onAuthStateChange_resume_fields initializeAuth_resume_fields
        split: option.splits task.splits)

lemma step_resumption_isLoading:
  assumes "step \<sigma> a = Some \<sigma>'" and "is_resumption a" and "\<not> isLoading (state \<sigma>)"
  shows "\<not> isLoading (state \<sigma>')"
  using assms
  by (cases a)
     (auto simp add: is_resumption_def fetchUserProfile_resume_effect fetched_fields
        onAuthStateChange_resume_fields initializeAuth_resume_fields
        split: option.splits task.splits)

lemma run_resumptions_frame:
  assumes "run \<sigma> acts = Some \<sigma>'" and "only_resumptions acts"
  shows "session (state \<sigma>') = session (state \<sigma>) \<and>
         (\<not> isLoading (state \<sigma>) \<longrightarrow> \<not> isLoading (state \<sigma>'))"
  using assms
proof (induction acts arbitrary: \<sigma>)
  case Nil
  then show ?case by simp
next
  case (Cons a acts)
  from Cons.prems(1) obtain \<sigma>1 where s1: "step \<sigma> a = Some \<sigma>1" and r: "run \<sigma>1 acts = Some \<sigma>'"
    by (auto split: option.splits)
  from Cons.prems(2) have ra: "is_resumption a" and rs: "only_resumptions acts"
    by (simp_all add: only_resumptions_def)
  from Cons.IH [OF r rs] step_resumption_session [OF s1 ra] step_resumption_isLoading [OF s1 ra]
  show ?case by auto
qed

text \<open>
  Whatever the reads reject with, a resumption writes to the profile nothing but null
  or a row that a read found.
\<close>

lemma user_onAuthStateChange_resume_cases:
  "user (snd (onAuthStateChange_resume c w)) = user w \<or>
   user (snd (onAuthStateChange_resume c w)) = None"
proof (cases c)
  case (Returned x)
  then show ?thesis by (simp add: user_onAuthStateChange_resume)
next
  case (Raised e)
  then show ?thesis
    by (cases "error_message e")
       (simp_all add: onAuthStateChange_resume_def onAuthStateChange_finally_def
          onAuthStateChange_catch_def world_ops)
qed

lemma user_fetched_cases:
  "user (fetched settled w) = user w \<or> user (fetched settled w) = None \<or>
   (\<exists>row. spec_classify settled = Found row \<and> user (fetched settled w) = Some row)"
  by (cases "fetch_completion settled"; cases "spec_classify settled")
     (simp_all add: user_fetched spec_profile_def)

lemma step_resumption_user_bound:
  assumes "step \<sigma> a = Some \<sigma>'" and "is_resumption a"
  shows "user (state \<sigma>') = user (state \<sigma>) \<or> user (state \<sigma>') = None \<or>
         (\<exists>i r row. a = ProfileSettled i r \<and> spec_classify r = Found row \<and>
            user (state \<sigma>') = Some row)"
proof (cases a)
  case (ProfileSettled i r)
  with assms(1) have "state \<sigma>' = fetched r (state \<sigma>)"
    by (auto simp add: fetchUserProfile_resume_effect split: option.splits task.splits)
  with user_fetched_cases [of r "state \<sigma>"] ProfileSettled show ?thesis
    by auto
next
  case (Continue i)
  with assms(1) consider c where "state \<sigma>' = snd (onAuthStateChange_resume c (state \<sigma>))"
    | c where "state \<sigma>' = initializeAuth_resume c (state \<sigma>)"
    by (auto split: option.splits task.splits)
  then show ?thesis
  proof cases
    case 1
    with user_onAuthStateChange_resume_cases [of c "state \<sigma>"] show ?thesis by auto
  next
    case 2
    then show ?thesis by (simp add: initializeAuth_resume_fields)
  qed
qed (use assms(2) in \<open>simp_all add: is_resumption_def\<close>)

lemma run_resumptions_user_bound:
  assumes "run \<sigma> acts = Some \<sigma>'" and "only_resumptions acts"
  shows "user (state \<sigma>') = user (state \<sigma>) \<or> user (state \<sigma>') = None \<or>
         (\<exists>i r row. ProfileSettled i r \<in> set acts \<and> spec_classify r = Found row \<and>
            user (state \<sigma>') = Some row)"
  using assms
proof (induction acts arbitrary: \<sigma>)
  case Nil
  then show ?case by simp
next
  case (Cons a acts)
  from Cons.prems(1) obtain \<sigma>1 where s1: "step \<sigma> a = Some \<sigma>1" and r: "run \<sigma>1 acts = Some \<sigma>'"
    by (auto split: option.splits)
  from Cons.prems(2) have ra: "is_resumption a" and rs: "only_resumptions acts"
    by (simp_all add: only_resumptions_def)
  from Cons.IH [OF r rs] step_resumption_user_bound [OF s1 ra]
  show ?case
    by (elim disjE exE conjE) (simp_all, blast+)
qed

lemma step_returned_tasks:
  assumes "step \<sigma> a = Some \<sigma>'" and "list_all returned_task (tasks \<sigma>)"
    and "convertible_reads [a]"
  shows "list_all returned_task (tasks \<sigma>')"
  using assms
  by (cases a)
     (auto simp add: fetchUserProfile_resume_effect fetch_completion_convertibly
        convertible_reads_def list_all_iff after_step_def returned_task_def
        dest!: set_update_subset_insert [THEN subsetD]
        split: option.splits task.splits async_step.splits prod.splits)

lemma run_returned_tasks:
  "run \<sigma> acts = Some \<sigma>' \<Longrightarrow> list_all returned_task (tasks \<sigma>) \<Longrightarrow> convertible_reads acts
     \<Longrightarrow> list_all returned_task (tasks \<sigma>')"
proof (induction acts arbitrary: \<sigma>)
  case Nil
  then show ?case by simp
next
  case (Cons a acts)
  from Cons.prems(1) obtain \<sigma>1 where s1: "step \<sigma> a = Some \<sigma>1" and r: "run \<sigma>1 acts = Some \<sigma>'"
    by (auto split: option.splits)
  from Cons.prems(3) have ca: "convertible_reads [a]" and cs: "convertible_reads acts"
    by (simp_all add: convertible_reads_def)
  from Cons.IH [OF r step_returned_tasks [OF s1 Cons.prems(2) ca] cs]
  show ?case .
qed

lemma step_resumption_user:
  assumes "step \<sigma> a = Some \<sigma>'" and "is_resumption a" and "list_all returned_task (tasks \<sigma>)"
    and "convertible_reads [a]"
  shows "user (state \<sigma>') =
           (case a of ProfileSettled i r \<Rightarrow> spec_profile (spec_classify r) | _ \<Rightarrow> user (state \<sigma>))"
proof (cases a)
  case (ProfileSettled i r)
  with assms(1,4) show ?thesis
    by (auto simp add: fetchUserProfile_resume_effect user_fetched_convertibly
        convertible_reads_def split: option.splits task.splits)
next
  case (Continue i)
  with assms(1) consider c where "task_at \<sigma> i = Some (HandlerAwaitReturn c)"
    | c where "task_at \<sigma> i = Some (InitAwaitReturn c)"
    by (auto split: option.splits task.splits)
  then show ?thesis
  proof cases
    case 1
    then have "HandlerAwaitReturn c \<in> set (tasks \<sigma>)"
      by (auto simp add: task_at_def dest: nth_mem split: if_splits)
    with assms(3) have "c = Returned ()"
      by (cases c) (auto simp add: list_all_iff returned_task_def)
    with 1 assms(1) Continue show ?thesis
      by (auto simp add: onAuthStateChange_resume_fields)
  next
    case 2
    with assms(1) Continue show ?thesis
      by (auto simp add: initializeAuth_resume_fields)
  qed
qed (use assms(2) in \<open>simp_all add: is_resumption_def\<close>)

text \<open>
  A run of resumptions in which every read settles convertibly leaves the profile of
  the read that settled last (the old profile if none settled).
\<close>

lemma run_resumptions:
  assumes "run \<sigma> acts = Some \<sigma>'" and "only_resumptions acts"
    and "list_all returned_task (tasks \<sigma>)" and "convertible_reads acts"
  shows "user (state \<sigma>') =
           (case last_settled acts of
              None \<Rightarrow> user (state \<sigma>)
            | Some r \<Rightarrow> spec_profile (spec_classify r))"
  using assms
proof (induction acts arbitrary: \<sigma>)
  case Nil
  then show ?case by simp
next
  case (Cons a acts)
  from Cons.prems(1) obtain \<sigma>1 where s1: "step \<sigma> a = Some \<sigma>1" and r: "run \<sigma>1 acts = Some \<sigma>'"
    by (auto split: option.splits)
  from Cons.prems(2) have ra: "is_resumption a" and rs: "only_resumptions acts"
    by (simp_all add: only_resumptions_def)
  from Cons.prems(4) have ca: "convertible_reads [a]" and cs: "convertible_reads acts"
    by (simp_all add: convertible_reads_def)
  note inv = step_returned_tasks [OF s1 Cons.prems(3) ca]
  from Cons.IH [OF r rs inv cs] step_resumption_user [OF s1 ra Cons.prems(3) ca]
  show ?case
    by (cases a) (auto simp add: is_resumption_def split: option.splits)
qed

text \<open>
  Claim C8, as the code has it. In any execution of a freshly mounted provider, when a
  session-change event with a null session is handled, user and session are null and
  isLoading is false right after the handler. If afterwards only invocations that were
  already suspended go on (their reads settle, they continue), then session stays null
  and isLoading stays false, and the profile at the end is the outcome of the read that
  settled last: null if no read settled or if the last one did not find a row, and the
  row it found otherwise. A pending read is not cancelled by the null-session event.
  This account of the profile is for executions in which every read fulfils or rejects
  with a value that the \<^verbatim>\<open>catch\<close> blocks can convert. For all executions, session
  stays null and isLoading false, and the profile at the end is null or a row that one
  of the late reads found.
\<close>

theorem null_session_then_late_reads:
  assumes "run \<lparr>state = w, tasks = []\<rparr> before = Some \<sigma>"
    and "step \<sigma> (SessionChanged event None) = Some \<tau>"
    and "run \<tau> acts = Some \<upsilon>" and "only_resumptions acts"
  shows "user (state \<tau>) = None \<and> session (state \<tau>) = None \<and> \<not> isLoading (state \<tau>) \<and>
         session (state \<upsilon>) = None \<and> \<not> isLoading (state \<upsilon>) \<and>
         (convertible_reads before \<and> convertible_reads acts \<longrightarrow>
            user (state \<upsilon>) =
              (case last_settled acts of
                 None \<Rightarrow> None
               | Some r \<Rightarrow> spec_profile (spec_classify r))) \<and>
         (user (state \<upsilon>) = None \<or>
          (\<exists>i r row. ProfileSettled i r \<in> set acts \<and> spec_classify r = Found row \<and>
             user (state \<upsilon>) = Some row))"
proof -
  from onAuthStateChange_begin_no_user [of None event "state \<sigma>"] assms(2)
  have now: "user (state \<tau>) = None \<and> session (state \<tau>) = None \<and> \<not> isLoading (state \<tau>)"
    by (auto simp add: session_user_of_def)
  from run_resumptions_frame [OF assms(3,4)] now
  have later: "session (state \<upsilon>) = None \<and> \<not> isLoading (state \<upsilon>)"
    by simp
  have "user (state \<upsilon>) =
          (case last_settled acts of
             None \<Rightarrow> None
           | Some r \<Rightarrow> spec_profile (spec_classify r))"
    if c: "convertible_reads before" "convertible_reads acts"
  proof -
    from run_returned_tasks [OF assms(1) _ c(1)] have "list_all returned_task (tasks \<sigma>)"
      by simp
    from step_returned_tasks [OF assms(2) this]
    have inv: "list_all returned_task (tasks \<tau>)"
      by (simp add: convertible_reads_def)
    from run_resumptions [OF assms(3,4) inv c(2)] now show ?thesis
      by (auto split: option.splits)
  qed
  moreover from run_resumptions_user_bound [OF assms(3,4)] now
  have "user (state \<upsilon>) = None \<or>
        (\<exists>i r row. ProfileSettled i r \<in> set acts \<and> spec_classify r = Found row \<and>
           user (state \<upsilon>) = Some row)"
    by auto
  ultimately show ?thesis
    using now later by blast
qed

text \<open>
  The claim as written fails: the read of the sign-in settles after the sign-out event
  and its row becomes the profile, with the session null.
\<close>

theorem null_session_stale_profile_counterexample:
  "map_option (user \<circ> state) (run start stale_after_logout) = Some (Some admin_row) \<and>
   map_option (session \<circ> state) (run start stale_after_logout) = Some None \<and>
   map_option (isLoading \<circ> state) (run start stale_after_logout) = Some False \<and>
   map_option tasks (run start stale_after_logout) = Some [Finished, Finished]"
  by (simp add: stale_after_logout_def eval_defs)

theorem null_session_then_late_reads_witness:
  "only_resumptions [ProfileSettled 0 no_row, Continue 0] \<and>
   map_option (user \<circ> state)
     (run start
        ([SessionChanged ''SIGNED_IN'' (Some session_u1)] @
         SessionChanged ''SIGNED_OUT'' None # [ProfileSettled 0 no_row, Continue 0])) =
     Some None \<and>
   map_option (session \<circ> state)
     (run start
        ([SessionChanged ''SIGNED_IN'' (Some session_u1)] @
         SessionChanged ''SIGNED_OUT'' None # [ProfileSettled 0 no_row, Continue 0])) =
     Some None \<and>
   map_option (isLoading \<circ> state)
     (run start
        ([SessionChanged ''SIGNED_IN'' (Some session_u1)] @
         SessionChanged ''SIGNED_OUT'' None # [ProfileSettled 0 no_row, Continue 0])) =
     Some False"
proof -
  let ?before = "[SessionChanged ''SIGNED_IN'' (Some session_u1)]"
  let ?acts = "[ProfileSettled 0 no_row, Continue 0]"
  have "run start (?before @ SessionChanged ''SIGNED_OUT'' None # ?acts) \<noteq> None"
    by (simp add: eval_defs)
  then obtain \<sigma> \<tau> \<upsilon>
    where b: "run \<lparr>state = initial_world, tasks = []\<rparr> ?before = Some \<sigma>"
      and e: "step \<sigma> (SessionChanged ''SIGNED_OUT'' None) = Some \<tau>"
      and a: "run \<tau> ?acts = Some \<upsilon>"
    by (auto simp add: run_append start_def split: option.splits simp del: step.simps)
  have r: "only_resumptions ?acts"
    by (simp add: only_resumptions_def is_resumption_def)
  have c: "convertible_reads ?before" "convertible_reads ?acts"
    by (simp_all add: convertible_reads_def settles_convertibly_def no_row_def)
  from b e a
  have full: "run start (?before @ SessionChanged ''SIGNED_OUT'' None # ?acts) = Some \<upsilon>"
    by (auto simp add: run_append start_def simp del: step.simps split: option.splits)
  from null_session_then_late_reads [OF b e a r] c
  have "user (state \<upsilon>) = None" and "session (state \<upsilon>) = None" and "\<not> isLoading (state \<upsilon>)"
    by (simp_all add: no_row_def spec_classify_def spec_profile_def)
  with full r show ?thesis
    by simp
qed

text \<open>
  Claim C9, as the code has it. Two session-change events, for session A and then for
  session B, are handled before either profile read settles. For every interleaving of
  the remaining steps of the two invocations (each read settles, then its handler
  continues), the execution runs to the end with both invocations finished, session B,
  isLoading false, and the profile that the read which settled last delivered: the
  outcome of B's read when A's read settled first, the outcome of A's read when B's
  read settled first. No read is discarded as stale. This account of the profile is for
  reads that fulfil or reject with a value that the \<^verbatim>\<open>catch\<close> blocks can convert. For
  all reads, the execution ends with session B and isLoading false, and the profile at
  the end is the one from before the two events, null, or a row that one of the two
  reads found.
\<close>

theorem two_session_changes_last_read_wins:
  assumes "session_user sA = Some uA" and "session_user sB = Some uB"
    and "acts \<in> shuffles
           [ProfileSettled (length (tasks \<sigma>)) rA, Continue (length (tasks \<sigma>))]
           [ProfileSettled (Suc (length (tasks \<sigma>))) rB, Continue (Suc (length (tasks \<sigma>)))]"
  shows "\<exists>\<tau>. run \<sigma> (SessionChanged evA (Some sA) # SessionChanged evB (Some sB) # acts) = Some \<tau> \<and>
           session (state \<tau>) = Some sB \<and> \<not> isLoading (state \<tau>) \<and>
           tasks \<tau> = tasks \<sigma> @ [Finished, Finished] \<and>
           (last_settled acts = Some rA \<or> last_settled acts = Some rB) \<and>
           (settles_convertibly rA \<and> settles_convertibly rB \<longrightarrow>
              Some (user (state \<tau>)) =
                map_option (spec_profile \<circ> spec_classify) (last_settled acts)) \<and>
           (user (state \<tau>) = user (state \<sigma>) \<or> user (state \<tau>) = None \<or>
            (\<exists>row. (spec_classify rA = Found row \<or> spec_classify rB = Found row) \<and>
               user (state \<tau>) = Some row))"
proof -
  let ?a = "length (tasks \<sigma>)"
  let ?b = "Suc (length (tasks \<sigma>))"
  from assms(3) consider (AA)
      "acts = [ProfileSettled ?a rA, Continue ?a, ProfileSettled ?b rB, Continue ?b]"
    | (AB) "acts = [ProfileSettled ?a rA, ProfileSettled ?b rB, Continue ?a, Continue ?b]"
    | (AB') "acts = [ProfileSettled ?a rA, ProfileSettled ?b rB, Continue ?b, Continue ?a]"
    | (BA) "acts = [ProfileSettled ?b rB, ProfileSettled ?a rA, Continue ?a, Continue ?b]"
    | (BA') "acts = [ProfileSettled ?b rB, ProfileSettled ?a rA, Continue ?b, Continue ?a]"
    | (BB) "acts = [ProfileSettled ?b rB, Continue ?b, ProfileSettled ?a rA, Continue ?a]"
    by auto
  note interleavings = this
  note evaluate =
    task_at_def after_step_def nth_append list_update_append onAuthStateChange_begin_def
    session_user_of_def fetchUserProfile_request_def fetchUserProfile_resume_effect
    fetched_fields onAuthStateChange_resume_fields fetch_completion_convertibly
    user_fetched_convertibly world_ops
  from interleavings assms(1,2)
  have "\<exists>\<tau>. run \<sigma> (SessionChanged evA (Some sA) # SessionChanged evB (Some sB) # acts) = Some \<tau> \<and>
           session (state \<tau>) = Some sB \<and> \<not> isLoading (state \<tau>) \<and>
           tasks \<tau> = tasks \<sigma> @ [Finished, Finished] \<and>
           (last_settled acts = Some rA \<or> last_settled acts = Some rB) \<and>
           (settles_convertibly rA \<and> settles_convertibly rB \<longrightarrow>
              Some (user (state \<tau>)) =
                map_option (spec_profile \<circ> spec_classify) (last_settled acts))"
    by cases (simp_all add: evaluate)
  then obtain \<tau>
    where ran: "run \<sigma> (SessionChanged evA (Some sA) # SessionChanged evB (Some sB) # acts) = Some \<tau>"
      and main: "session (state \<tau>) = Some sB \<and> \<not> isLoading (state \<tau>) \<and>
           tasks \<tau> = tasks \<sigma> @ [Finished, Finished] \<and>
           (last_settled acts = Some rA \<or> last_settled acts = Some rB) \<and>
           (settles_convertibly rA \<and> settles_convertibly rB \<longrightarrow>
              Some (user (state \<tau>)) =
                map_option (spec_profile \<circ> spec_classify) (last_settled acts))"
    by blast
  from ran obtain \<sigma>1 \<sigma>2
    where s1: "step \<sigma> (SessionChanged evA (Some sA)) = Some \<sigma>1"
      and s2: "step \<sigma>1 (SessionChanged evB (Some sB)) = Some \<sigma>2"
      and rest: "run \<sigma>2 acts = Some \<tau>"
    by (auto simp del: step.simps split: option.splits)
  from s1 s2 assms(1,2) have same: "user (state \<sigma>2) = user (state \<sigma>)"
    by (auto simp add: onAuthStateChange_begin_def session_user_of_def
        fetchUserProfile_request_def world_ops)
  from interleavings have only: "only_resumptions acts"
    by cases (simp_all add: only_resumptions_def is_resumption_def)
  from interleavings
  have reads: "\<And>i r. ProfileSettled i r \<in> set acts \<Longrightarrow> r = rA \<or> r = rB"
    by cases auto
  from run_resumptions_user_bound [OF rest only] same reads
  have "user (state \<tau>) = user (state \<sigma>) \<or> user (state \<tau>) = None \<or>
        (\<exists>row. (spec_classify rA = Found row \<or> spec_classify rB = Found row) \<and>
           user (state \<tau>) = Some row)"
    by (elim disjE exE conjE) (simp_all, blast)
  with ran main show ?thesis
    by blast
qed

theorem two_session_changes_last_read_wins_witness:
  "session_user session_u1 = Some \<lparr>au_id = ''u1'', au_email = ''a@x.com''\<rparr> \<and>
   session_user session_u2 = Some \<lparr>au_id = ''u2'', au_email = ''b@x.com''\<rparr> \<and>
   map_option (user \<circ> state) (run start in_order) = Some (Some member_row) \<and>
   map_option (session \<circ> state) (run start in_order) = Some (Some session_u2) \<and>
   map_option (isLoading \<circ> state) (run start in_order) = Some False"
proof -
  let ?acts = "[ProfileSettled 0 found_u1, ProfileSettled (Suc 0) found_u2,
                Continue 0, Continue (Suc 0)]"
  have uA: "session_user session_u1 = Some \<lparr>au_id = ''u1'', au_email = ''a@x.com''\<rparr>"
    by (simp add: session_u1_def)
  have uB: "session_user session_u2 = Some \<lparr>au_id = ''u2'', au_email = ''b@x.com''\<rparr>"
    by (simp add: session_u2_def)
  have sh: "?acts \<in> shuffles
      [ProfileSettled (length (tasks start)) found_u1, Continue (length (tasks start))]
      [ProfileSettled (Suc (length (tasks start))) found_u2,
       Continue (Suc (length (tasks start)))]"
    by (simp add: start_def)
  have cv: "settles_convertibly found_u1" "settles_convertibly found_u2"
    by (simp_all add: settles_convertibly_def found_u1_def found_u2_def)
  from two_session_changes_last_read_wins
    [OF uA uB sh, of "''SIGNED_IN''" "''SIGNED_IN''"] cv
  obtain \<tau> where "run start in_order = Some \<tau>"
    and "session (state \<tau>) = Some session_u2" and "\<not> isLoading (state \<tau>)"
    and "Some (user (state \<tau>)) =
           map_option (spec_profile \<circ> spec_classify) (last_settled ?acts)"
    by (auto simp add: in_order_def)
  moreover have "spec_profile (spec_classify found_u2) = Some member_row"
    by (simp add: spec_profile_def spec_classify_def found_u2_def)
  ultimately show ?thesis
    using uA uB by simp
qed

text \<open>
  The claim as written fails: the read for \<open>u2\<close> settles first, the read for \<open>u1\<close>
  settles after it, and the profile at the end is the row of \<open>u1\<close> under the session
  of \<open>u2\<close>.
\<close>

theorem two_session_changes_stale_profile_counterexample:
  "map_option (user \<circ> state) (run start stale_overwrite) = Some (Some admin_row) \<and>
   map_option (session \<circ> state) (run start stale_overwrite) = Some (Some session_u2) \<and>
   map_option (isLoading \<circ> state) (run start stale_overwrite) = Some False \<and>
   map_option tasks (run start stale_overwrite) = Some [Finished, Finished] \<and>
   uid admin_row = ''u1'' \<and>
   map_option au_id (session_user session_u2) = Some ''u2''"
  by (simp add: stale_overwrite_def eval_defs admin_row_def)

section \<open>login and signup\<close>

text \<open>
  Claim C7, as the code has it. \<^verbatim>\<open>login\<close> and \<^verbatim>\<open>signup\<close> never write the
  Reconciler's state: on every path, and so on success, user, session and isLoading
  are what they were; the profile cell is left to a later \<^verbatim>\<open>fetchUserProfile\<close>.
  \<^verbatim>\<open>login\<close> sends nothing to the Profile Store, and it returns normally whenever the
  provider's call fulfils or rejects with a value that its \<^verbatim>\<open>catch\<close> block can convert.
  \<^verbatim>\<open>signup\<close> does write the Profile record: when it returns \<^verbatim>\<open>{ error: null }\<close>,
  the provider has returned a user, the insert reported no error, and exactly one
  request has been added to those sent to the Profile Store, the insert of that user's
  row with role \<^verbatim>\<open>'user'\<close>, active, and not allowed to write testimonials.
\<close>

theorem login_signup_frame:
  "(\<exists>c w'. login email_arg password settled w = (c, w') \<and>
            user w' = user w \<and> session w' = session w \<and> isLoading w' = isLoading w \<and>
            store_ops w' = store_ops w \<and>
            (settles_convertibly settled \<longrightarrow> (\<exists>r. c = Returned r))) \<and>
   (\<exists>r w'. signup email_arg password fullName_arg signedUp inserted w = (r, w') \<and>
            user w' = user w \<and> session w' = session w \<and> isLoading w' = isLoading w \<and>
            console w' = console w \<and>
            (r = None \<longrightarrow>
               (\<exists>resp u. signedUp = Fulfilled resp \<and> su_error resp = None \<and>
                  su_user resp = Some u \<and> inserted = Fulfilled None \<and>
                  store_ops w' = store_ops w @
                    [InsertUser
                       \<lparr>ins_id = au_id u, ins_email = email_arg, ins_fullName = fullName_arg,
                        ins_role = ''user'', ins_isActive = True,
                        ins_canWriteTestimonial = False\<rparr>])))"
proof
  show "\<exists>c w'. login email_arg password settled w = (c, w') \<and>
            user w' = user w \<and> session w' = session w \<and> isLoading w' = isLoading w \<and>
            store_ops w' = store_ops w \<and>
            (settles_convertibly settled \<longrightarrow> (\<exists>r. c = Returned r))"
  proof (cases settled)
    case (Fulfilled r)
    then show ?thesis
      by (simp add: login_def login_try_def login_begin_def try_catch_def world_ops
          split: option.splits)
  next
    case (Rejected e)
    then show ?thesis
      by (cases "error_message e")
         (simp_all add: login_def login_try_def login_catch_def login_begin_def try_catch_def
            world_ops settles_convertibly_def convertible_def)
  qed
next
  show "\<exists>r w'. signup email_arg password fullName_arg signedUp inserted w = (r, w') \<and>
            user w' = user w \<and> session w' = session w \<and> isLoading w' = isLoading w \<and>
            console w' = console w \<and>
            (r = None \<longrightarrow>
               (\<exists>resp u. signedUp = Fulfilled resp \<and> su_error resp = None \<and>
                  su_user resp = Some u \<and> inserted = Fulfilled None \<and>
                  store_ops w' = store_ops w @
                    [InsertUser
                       \<lparr>ins_id = au_id u, ins_email = email_arg, ins_fullName = fullName_arg,
                        ins_role = ''user'', ins_isActive = True,
                        ins_canWriteTestimonial = False\<rparr>]))"
  proof (cases signedUp)
    case (Rejected e)
    then show ?thesis
      by (simp add: signup_def signup_after_signUp_def)
  next
    case (Fulfilled resp)
    show ?thesis
    proof (cases "su_error resp")
      case (Some er)
      with Fulfilled show ?thesis
        by (simp add: signup_def signup_after_signUp_def)
    next
      case None
      show ?thesis
      proof (cases "su_user resp")
        case no_user: None
        with None Fulfilled show ?thesis
          by (simp add: signup_def signup_after_signUp_def)
      next
        case (Some u)
        with None Fulfilled show ?thesis
          by (cases inserted)
             (auto simp add: signup_def signup_after_signUp_def signup_after_insert_def
                world_ops split: option.splits)
      qed
    qed
  qed
qed

theorem login_signup_frame_witness:
  "fst (login ''a@x.com'' ''secret'' signed_in_response_u1 initial_world) = Returned None \<and>
   user (snd (login ''a@x.com'' ''secret'' signed_in_response_u1 initial_world)) = None \<and>
   store_ops (snd (login ''a@x.com'' ''secret'' signed_in_response_u1 initial_world)) = [] \<and>
   fst (signup ''b@x.com'' ''secret'' ''Bob'' signed_up_u2 (Fulfilled None) initial_world) = None \<and>
   user (snd (signup ''b@x.com'' ''secret'' ''Bob'' signed_up_u2 (Fulfilled None) initial_world)) =
     None \<and>
   store_ops (snd (signup ''b@x.com'' ''secret'' ''Bob'' signed_up_u2 (Fulfilled None) initial_world)) =
     [InsertUser
        \<lparr>ins_id = ''u2'', ins_email = ''b@x.com'', ins_fullName = ''Bob'', ins_role = ''user'',
         ins_isActive = True, ins_canWriteTestimonial = False\<rparr>]"
proof -
  have ok: "fst (login ''a@x.com'' ''secret'' signed_in_response_u1 initial_world) = Returned None"
    by (simp add: login_def login_try_def login_begin_def try_catch_def world_ops
        signed_in_response_u1_def session_u1_def session_user_of_def)
  have ok': "fst (signup ''b@x.com'' ''secret'' ''Bob'' signed_up_u2 (Fulfilled None) initial_world) =
      None"
    by (simp add: signup_def signup_after_signUp_def signup_after_insert_def signed_up_u2_def)
  from login_signup_frame
    [of "''a@x.com''" "''secret''" signed_in_response_u1 initial_world "''Bob''"
       signed_up_u2 "Fulfilled None"]
  have "user (snd (login ''a@x.com'' ''secret'' signed_in_response_u1 initial_world)) =
          user initial_world"
    and "store_ops (snd (login ''a@x.com'' ''secret'' signed_in_response_u1 initial_world)) =
          store_ops initial_world"
    by auto
  moreover from login_signup_frame
    [of "''b@x.com''" "''secret''" signed_in_response_u1 initial_world "''Bob''"
       signed_up_u2 "Fulfilled None"] ok'
  have "user (snd (signup ''b@x.com'' ''secret'' ''Bob'' signed_up_u2 (Fulfilled None)
                initial_world)) = user initial_world"
    and "store_ops (snd (signup ''b@x.com'' ''secret'' ''Bob'' signed_up_u2 (Fulfilled None)
                initial_world)) =
         store_ops initial_world @
           [InsertUser
              \<lparr>ins_id = ''u2'', ins_email = ''b@x.com'', ins_fullName = ''Bob'',
               ins_role = ''user'', ins_isActive = True, ins_canWriteTestimonial = False\<rparr>]"
    by (auto simp add: signed_up_u2_def)
  ultimately show ?thesis
    using ok ok' by (simp add: initial_world_def)
qed

text \<open>
  The claim as written fails for \<^verbatim>\<open>signup\<close>: a successful call has written the
  Profile record, by its insert into the Profile Store.
\<close>

theorem signup_writes_profile_counterexample:
  "fst (signup ''b@x.com'' ''secret'' ''Bob'' signed_up_u2 (Fulfilled None) initial_world) = None \<and>
   store_ops initial_world = [] \<and>
   store_ops (snd (signup ''b@x.com'' ''secret'' ''Bob'' signed_up_u2 (Fulfilled None) initial_world)) =
     [InsertUser
        \<lparr>ins_id = ''u2'', ins_email = ''b@x.com'', ins_fullName = ''Bob'', ins_role = ''user'',
         ins_isActive = True, ins_canWriteTestimonial = False\<rparr>]"
  by (simp add: signup_def signup_after_signUp_def signup_after_insert_def signed_up_u2_def
      initial_world_def world_ops)

end
